theory Spec2Isabelle
  imports Main
begin

section \<open>JavaScript values used by the workers\<close>

text \<open>
  The two workers (\<^verbatim>\<open>src-encoder/moq_sender.js\<close>, the publisher, and the
  downloader, the subscriber) keep their state in module-level bindings. The embedding
  below gathers these bindings in a record per worker and passes it explicitly.

  Sequence numbers and identifiers are JavaScript Numbers holding integers. Counters
  that only ever grow by one from zero (\<^verbatim>\<open>currentGroupSeq\<close>, \<^verbatim>\<open>currentObjectSeq\<close>,
  \<^verbatim>\<open>numSubscribers\<close>) are natural numbers: a Number counts exactly up to \<open>2^53\<close>.
  The send order is different: it adds the non-integer \<^verbatim>\<open>Number.MAX_SAFE_INTEGER / 2\<close>
  to \<^verbatim>\<open>seqId\<close>, and the sum lands where binary64 has no half bit left, so the
  rounding of that one addition is modelled exactly.
\<close>

subsection \<open>Rounding to binary64\<close>

fun bit_length :: "nat \<Rightarrow> nat" where
  "bit_length n = (if n = 0 then 0 else Suc (bit_length (n div 2)))"

declare bit_length.simps [simp del]

text \<open>
  A binary64 significand has 53 bits. \<open>round53 m\<close> is the multiple of a power of two
  with at most 53 significant bits nearest to \<open>m\<close>, a tie going to the even
  significand (IEEE 754 round-to-nearest-even, away from the exponent limits).
\<close>

definition round53 :: "nat \<Rightarrow> nat" where
  "round53 m =
     (let u = 2 ^ (bit_length m - 53); q = m div u; r = m mod u
      in if 2 * r < u \<or> (2 * r = u \<and> even q) then q * u else (q + 1) * u)"

definition MAX_SAFE_INTEGER :: int where
  "MAX_SAFE_INTEGER = 2 ^ 53 - 1"

text \<open>
  \<open>Math_floor_add_half n k\<close> is \<^verbatim>\<open>Math.floor(n + k / 2)\<close> for Numbers \<open>n \<ge> 0\<close> and
  \<open>k \<ge> 0\<close> holding integers below \<open>2^53\<close>: the quotient \<open>k / 2\<close> is exact, the exact
  sum is \<open>2 * n + k\<close> halves, the addition rounds it to binary64, and \<^verbatim>\<open>Math.floor\<close>
  of the rounded value is exact.
\<close>

definition Math_floor_add_half :: "int \<Rightarrow> int \<Rightarrow> int" where
  "Math_floor_add_half n k = int (round53 (nat (2 * n + k)) div 2)"

subsection \<open>Errors, tracks, packets\<close>

text \<open>
  A thrown \<^verbatim>\<open>new Error(msg)\<close> is \<open>Error msg\<close>; reading a property of
  \<^verbatim>\<open>undefined\<close> is \<open>TypeError\<close>. Message texts built with template literals keep
  their literal prefix; the interpolated values are left out.
\<close>

datatype error = Error string | TypeError

text \<open>
  One entry of \<^verbatim>\<open>moqTracks\<close>. \<^verbatim>\<open>checkTrackData\<close> tests whether \<^verbatim>\<open>namespace\<close>,
  \<^verbatim>\<open>name\<close> and \<^verbatim>\<open>authInfo\<close> are present, and the subscription loop whether
  \<^verbatim>\<open>numSubscribers\<close> is, so these fields are optional.
\<close>

record track =
  id_t :: nat
  namespace :: "string option"
  name_t :: "string option"
  authInfo :: "string option"
  isHipri :: bool
  maxInFlightRequests :: nat
  numSubscribers :: "nat option"

text \<open>
  \<^verbatim>\<open>tracks\<close> is a JavaScript object keyed by track type; \<^verbatim>\<open>Object.entries\<close>
  lists it in insertion order, so it is an association list, read with \<open>map_of\<close>.
\<close>

type_synonym tracks = "(string \<times> track) list"

text \<open>
  What \<^verbatim>\<open>packet.GetData()\<close> returns. The packager classes are not part of the
  sources at hand.
  Modelled from the spec: \<^verbatim>\<open>LocPackager\<close> and \<^verbatim>\<open>RawPackager\<close> hand back the
  \<^verbatim>\<open>mediaType\<close>, \<^verbatim>\<open>chunkType\<close> and \<^verbatim>\<open>seqId\<close> given to \<^verbatim>\<open>SetData\<close>, and
  \<^verbatim>\<open>pId\<close> is supplied with the chunk, unique per chunk.
\<close>

record packet =
  mediaType :: string
  chunkType :: string
  seqId :: int
  pId :: string

subsection \<open>Send order\<close>

definition moqCalculateSendOrder :: "tracks \<Rightarrow> packet \<Rightarrow> error + int" where
  "moqCalculateSendOrder trs p =
     (let ret = seqId p in
      if ret < 0 then Inr MAX_SAFE_INTEGER
      else (case map_of trs (mediaType p) of
              None \<Rightarrow> Inl TypeError
            | Some t \<Rightarrow>
                if isHipri t then Inr (Math_floor_add_half ret MAX_SAFE_INTEGER)
                else Inr ret))"

text \<open>
  The send order as the specification words it: \<open>U64_MAX\<close> for a negative \<open>seqId\<close>,
  \<open>seqId + floor(MAX_SAFE/2)\<close> on a high-priority track, \<open>seqId\<close> otherwise.
\<close>

definition U64_MAX :: int where
  "U64_MAX = 2 ^ 64 - 1"

definition spec_sendOrder :: "bool \<Rightarrow> int \<Rightarrow> int" where
  "spec_sendOrder hipri s =
     (if s < 0 then U64_MAX
      else if hipri then s + MAX_SAFE_INTEGER div 2
      else s)"

text \<open>Two tracks as in the example of the source: audio high priority, video low.\<close>

definition audio_track :: track where
  "audio_track = \<lparr>id_t = 0, namespace = Some ''vc'', name_t = Some ''audio0'',
     authInfo = Some ''secret'', isHipri = True, maxInFlightRequests = 100,
     numSubscribers = None\<rparr>"

definition video_track :: track where
  "video_track = \<lparr>id_t = 1, namespace = Some ''vc'', name_t = Some ''video0'',
     authInfo = Some ''secret'', isHipri = False, maxInFlightRequests = 50,
     numSubscribers = None\<rparr>"

definition example_tracks :: tracks where
  "example_tracks = [(''audio'', audio_track), (''video'', video_track)]"

definition example_packet :: "string \<Rightarrow> string \<Rightarrow> int \<Rightarrow> packet" where
  "example_packet mt ct s =
     \<lparr>mediaType = mt, chunkType = ct, seqId = s, pId = mt @ ''-'' @ ct\<rparr>"

section \<open>The publisher worker\<close>

subsection \<open>State\<close>

text \<open>
  \<^verbatim>\<open>StateEnum\<close> is imported from \<^verbatim>\<open>utils.js\<close>.
  Modelled from the spec: the session states are Created, Instantiated, Running and
  Stopped.
\<close>

datatype StateEnum = Created | Instantiated | Running | Stopped

text \<open>
  What a worker posts to the main thread: \<^verbatim>\<open>sendMessageToMain(prefix, type, data)\<close>
  with type \<^verbatim>\<open>info\<close>, \<^verbatim>\<open>error\<close>, \<^verbatim>\<open>debug\<close> or \<^verbatim>\<open>dropped\<close> (with the chunk's
  \<^verbatim>\<open>seqId\<close> and the reason \<^verbatim>\<open>msg\<close>), and the \<^verbatim>\<open>sendstats\<close> report with the
  number of in-flight requests per track. Wall-clock fields (\<^verbatim>\<open>clkms\<close>, \<^verbatim>\<open>ts\<close>) are
  left out.
\<close>

datatype event =
    Info string
  | Err string
  | Debug string
  | Dropped "int option" string
  | SendStats "(string \<times> nat) list"

fun is_dropped :: "event \<Rightarrow> bool" where
  "is_dropped (Dropped _ _) = True"
| "is_dropped _ = False"

text \<open>Messages written to the control stream, with the fields the workers pass.\<close>

datatype ctrlMsg =
    Setup nat
  | Announce "string option" "string option"
  | SubscribeResponse string string nat nat
  | Subscribe "string option" "string option" "string option"

text \<open>
  The role parameter values are constants of \<^verbatim>\<open>moqt.js\<close>.
  Modelled from the spec: \<open>PUBLISHER = 1\<close>, \<open>SUBSCRIBER = 2\<close>, \<open>BOTH = 3\<close>.
\<close>

definition MOQ_PARAMETER_ROLE_PUBLISHER :: nat where
  "MOQ_PARAMETER_ROLE_PUBLISHER = 1"

definition MOQ_PARAMETER_ROLE_SUBSCRIBER :: nat where
  "MOQ_PARAMETER_ROLE_SUBSCRIBER = 2"

definition MOQ_PARAMETER_ROLE_BOTH :: nat where
  "MOQ_PARAMETER_ROLE_BOTH = 3"

record trackState =
  currentGroupSeq :: nat
  currentObjectSeq :: nat

text \<open>The promise returned by \<^verbatim>\<open>uniWriter.close()\<close>, tagged with \<^verbatim>\<open>p.id\<close>.\<close>

datatype promise = Promise (id_p: string)

text \<open>
  One per-track in-flight object \<^verbatim>\<open>inFlightRequests[mediaType]\<close>: keys \<^verbatim>\<open>pId\<close> in
  insertion order, as \<^verbatim>\<open>Object.keys\<close> and \<^verbatim>\<open>Object.values\<close> list them.
\<close>

type_synonym inflight = "(string \<times> promise) list"

text \<open>
  The operator \<^verbatim>\<open>in\<close> on a plain object: \<^verbatim>\<open>k in obj\<close> holds when \<^verbatim>\<open>k\<close> is one of the
  object's own keys, and also when it names a property the object inherits. The objects
  the worker tests (\<^verbatim>\<open>tracks\<close>, a structured clone of what the host posted, and the
  in-flight objects, created as \<^verbatim>\<open>{}\<close>) inherit from \<^verbatim>\<open>Object.prototype\<close>, whose
  property names are listed here.
\<close>

definition Object_prototype :: "string list" where
  "Object_prototype =
     [''constructor'', ''__defineGetter__'', ''__defineSetter__'', ''hasOwnProperty'',
      ''__lookupGetter__'', ''__lookupSetter__'', ''isPrototypeOf'', ''propertyIsEnumerable'',
      ''toString'', ''valueOf'', ''__proto__'', ''toLocaleString'']"

definition in_object :: "string \<Rightarrow> string list \<Rightarrow> bool" where
  "in_object k own = (k \<in> set own \<or> k \<in> set Object_prototype)"

text \<open>
  A call of \<^verbatim>\<open>createSendPromise\<close> suspended at
  \<^verbatim>\<open>await moqt.wt.createUnidirectionalStream(...)\<close>, with the locals it resumes with.
\<close>

record pendingSend =
  p_packet :: packet
  p_trackId :: nat
  p_sendOrder :: int

text \<open>One call of \<^verbatim>\<open>moqSendObjectToWriter\<close>: the object header written to a stream.\<close>

record moqObject =
  o_mediaType :: string
  o_trackId :: nat
  groupSeq :: nat
  objSeq :: nat
  sendOrder :: int

text \<open>
  The module-level bindings of the publisher, and what it has done so far: \<open>wt\<close> says
  whether \<^verbatim>\<open>moqt.wt\<close> is non-null, \<open>awaiting\<close> holds the sends suspended at the stream
  creation, \<open>closing\<close> the sends whose close promise has not settled, \<open>written\<close> the
  objects written, \<open>toMain\<close> the events posted and \<open>controlOut\<close> the control messages
  sent, each in order. \<open>initialising\<close> counts the runs of the \<^verbatim>\<open>muxersendini\<close> branch that
  are suspended in its awaits; such a run keeps no local that the rest of it reads.
\<close>

record sender =
  workerState :: StateEnum
  isSendingStats :: bool
  tracks :: tracks
  moqPublisherState :: "nat \<rightharpoonup> trackState"
  inFlightRequests :: "string \<rightharpoonup> inflight"
  wt :: bool
  awaiting :: "pendingSend list"
  closing :: "pendingSend list"
  written :: "moqObject list"
  toMain :: "event list"
  controlOut :: "ctrlMsg list"
  initialising :: nat

definition emit :: "event list \<Rightarrow> sender \<Rightarrow> sender" where
  "emit evs s = s\<lparr>toMain := toMain s @ evs\<rparr>"

definition error_message :: "error \<Rightarrow> string" where
  "error_message e = (case e of Error m \<Rightarrow> m | TypeError \<Rightarrow> ''TypeError'')"

subsection \<open>In-flight requests\<close>

definition addToInflight :: "string \<Rightarrow> promise \<Rightarrow> sender \<Rightarrow> error + sender" where
  "addToInflight mt p s =
     (case inFlightRequests s mt of
        None \<Rightarrow> Inl TypeError
      | Some m \<Rightarrow>
          if in_object (id_p p) (map fst m)
          then Inr (emit [Err ''id already exists in inflight, this should never happen''] s)
          else Inr (s\<lparr>inFlightRequests := (inFlightRequests s)(mt \<mapsto> m @ [(id_p p, p)])\<rparr>))"

text \<open>\<^verbatim>\<open>delete\<close> removes an own key; for an inherited name it removes nothing.\<close>

definition removeFromInflight :: "string \<Rightarrow> string \<Rightarrow> sender \<Rightarrow> error + sender" where
  "removeFromInflight mt i s =
     (case inFlightRequests s mt of
        None \<Rightarrow> Inl TypeError
      | Some m \<Rightarrow>
          if in_object i (map fst m)
          then Inr (s\<lparr>inFlightRequests :=
                        (inFlightRequests s)(mt \<mapsto> filter (\<lambda>kv. fst kv \<noteq> i) m)\<rparr>)
          else Inr s)"

fun initInflightReqData :: "tracks \<Rightarrow> (string \<rightharpoonup> inflight)" where
  "initInflightReqData [] = Map.empty"
| "initInflightReqData ((trackType, _) # rest) = (initInflightReqData rest)(trackType \<mapsto> [])"

text \<open>
  \<^verbatim>\<open>getAllInflightRequestsArray\<close>: for each track in turn,
  \<^verbatim>\<open>ret = ret.concat(ret, Object.values(inFlightRequests[trackType]))\<close>.
\<close>

fun getAllInflightRequestsArray_loop ::
  "tracks \<Rightarrow> (string \<rightharpoonup> inflight) \<Rightarrow> promise list \<Rightarrow> error + promise list" where
  "getAllInflightRequestsArray_loop [] reqs ret = Inr ret"
| "getAllInflightRequestsArray_loop ((trackType, _) # rest) reqs ret =
     (case reqs trackType of
        None \<Rightarrow> Inl TypeError
      | Some m \<Rightarrow> getAllInflightRequestsArray_loop rest reqs (ret @ ret @ map snd m))"

definition getAllInflightRequestsArray :: "sender \<Rightarrow> error + promise list" where
  "getAllInflightRequestsArray s =
     getAllInflightRequestsArray_loop (tracks s) (inFlightRequests s) []"

text \<open>
  The union of the per-track pending handles, as the specification wants it: the handles
  of each track, once, track after track.
\<close>

definition spec_union_inflight :: "sender \<Rightarrow> promise list" where
  "spec_union_inflight s =
     concat (map (\<lambda>kt. case inFlightRequests s (fst kt) of None \<Rightarrow> [] | Some m \<Rightarrow> map snd m)
                 (tracks s))"

fun getInflightRequestsReport_loop ::
  "tracks \<Rightarrow> (string \<rightharpoonup> inflight) \<Rightarrow> (error + (string \<times> nat) list)" where
  "getInflightRequestsReport_loop [] reqs = Inr []"
| "getInflightRequestsReport_loop ((trackType, _) # rest) reqs =
     (case reqs trackType of
        None \<Rightarrow> Inl TypeError
      | Some m \<Rightarrow>
          (case getInflightRequestsReport_loop rest reqs of
             Inl e \<Rightarrow> Inl e
           | Inr r \<Rightarrow> Inr ((trackType, length m) # r)))"

definition getInflightRequestsReport :: "sender \<Rightarrow> error + (string \<times> nat) list" where
  "getInflightRequestsReport s = getInflightRequestsReport_loop (tracks s) (inFlightRequests s)"

subsection \<open>Sending a chunk\<close>

text \<open>
  \<^verbatim>\<open>chunkData\<close> as the listener builds it: the track type, the \<^verbatim>\<open>seqId\<close>, the
  encoded chunk's \<^verbatim>\<open>type\<close> (\<^verbatim>\<open>key\<close> or \<^verbatim>\<open>delta\<close>) and the \<^verbatim>\<open>pId\<close> its packet
  will carry. Timestamps, durations, metadata and the payload bytes only travel into
  the packet's bytes and are left out.
\<close>

record chunkData =
  mediaType_c :: string
  seqId_c :: int
  chunk_type :: string
  pId_c :: string

text \<open>
  Modelled from the spec: \<^verbatim>\<open>SetData\<close> of the two packagers stores its arguments;
  \<^verbatim>\<open>GetData\<close> returns them. The LOC packager is given \<^verbatim>\<open>chunkData.chunk.type\<close> as
  chunk type, the RAW packager whatever \<^verbatim>\<open>createRequest\<close> passes.
\<close>

definition RawPackager_SetData :: "string \<Rightarrow> string \<Rightarrow> int \<Rightarrow> string \<Rightarrow> packet" where
  "RawPackager_SetData mt ct sq pid =
     \<lparr>mediaType = mt, chunkType = ct, seqId = sq, pId = pid\<rparr>"

definition LocPackager_SetData :: "string \<Rightarrow> string \<Rightarrow> int \<Rightarrow> string \<Rightarrow> packet" where
  "LocPackager_SetData mt ct sq pid =
     \<lparr>mediaType = mt, chunkType = ct, seqId = sq, pId = pid\<rparr>"

definition createTrackState :: trackState where
  "createTrackState = \<lparr>currentGroupSeq = 0, currentObjectSeq = 0\<rparr>"

text \<open>
  How the synchronous part of a send ends: with the value \<^verbatim>\<open>{dropped: true, message}\<close>,
  with a thrown error, or suspended at the creation of the stream.
\<close>

datatype sendResult = DroppedR string | Threw error | Suspended

text \<open>
  \<^verbatim>\<open>createSendPromise\<close> up to its \<^verbatim>\<open>await\<close>: the transport and track checks, the
  first-object rule, the creation of the track state, the send order, and the request
  for a unidirectional stream. The listener, its only caller, passes on a chunk only when
  its type is an own key of \<^verbatim>\<open>tracks\<close> (a track with \<^verbatim>\<open>numSubscribers\<close>), so the track
  check is made on the own keys.
\<close>

definition createSendPromise :: "packet \<Rightarrow> sender \<Rightarrow> sendResult \<times> sender" where
  "createSendPromise packet s =
     (if \<not> wt s
      then (Threw (Error ''request not send because transport is NOT open.''), s)
      else (case map_of (tracks s) (mediaType packet) of
        None \<Rightarrow> (Threw (Error ''OBJECT mediaType NOT supported (no track found)''), s)
      | Some t \<Rightarrow>
          (let trackId = id_t t in
           if moqPublisherState s trackId = None \<and> chunkType packet = ''delta''
           then (DroppedR ''Dropped chunk because first object can not be delta, data: '', s)
           else
            (let s1 = (if moqPublisherState s trackId = None
                       then s\<lparr>moqPublisherState :=
                                (moqPublisherState s)(trackId \<mapsto> createTrackState)\<rparr>
                       else s)
             in (case moqCalculateSendOrder (tracks s1) packet of
                   Inl e \<Rightarrow> (Threw e, s1)
                 | Inr so \<Rightarrow>
                     (Suspended,
                      s1\<lparr>awaiting := awaiting s1 @
                           [\<lparr>p_packet = packet, p_trackId = trackId, p_sendOrder = so\<rparr>]\<rparr>))))))"

text \<open>
  \<^verbatim>\<open>createSendPromise\<close> from the moment the stream exists to its \<^verbatim>\<open>return p\<close>: the
  group and object sequence, the object written, and the registration of the close
  promise. No \<^verbatim>\<open>await\<close> separates these statements.
\<close>

definition createSendPromise_resume :: "pendingSend \<Rightarrow> sender \<Rightarrow> error option \<times> sender" where
  "createSendPromise_resume pd s =
     (let packet = p_packet pd; trackId = p_trackId pd in
      case moqPublisherState s trackId of
        None \<Rightarrow> (Some TypeError, s)
      | Some st \<Rightarrow>
          (let st1 = (if chunkType packet \<noteq> ''delta''
                      then st\<lparr>currentGroupSeq := currentGroupSeq st + 1, currentObjectSeq := 0\<rparr>
                      else st);
               obj = \<lparr>o_mediaType = mediaType packet, o_trackId = trackId,
                      groupSeq = currentGroupSeq st1, objSeq = currentObjectSeq st1,
                      sendOrder = p_sendOrder pd\<rparr>;
               st2 = st1\<lparr>currentObjectSeq := currentObjectSeq st1 + 1\<rparr>;
               s1 = emit [Debug ''Sending MOQT'']
                      (s\<lparr>moqPublisherState := (moqPublisherState s)(trackId \<mapsto> st2),
                         written := written s @ [obj]\<rparr>)
           in case addToInflight (mediaType packet) (Promise (pId packet)) s1 of
                Inl err \<Rightarrow> (Some err, s1)
              | Inr s2 \<Rightarrow> (None, s2)))"

text \<open>The packet \<^verbatim>\<open>createRequest\<close> builds: RAW with chunk type \<^verbatim>\<open>key\<close> for the
  \<^verbatim>\<open>data\<close> track, LOC with the chunk's own type for every other track.\<close>

definition createRequest_packet :: "chunkData \<Rightarrow> packet" where
  "createRequest_packet cd =
     (if mediaType_c cd = ''data''
      then RawPackager_SetData (mediaType_c cd) ''key'' (seqId_c cd) (pId_c cd)
      else LocPackager_SetData (mediaType_c cd) (chunk_type cd) (seqId_c cd) (pId_c cd))"

definition createRequest :: "chunkData \<Rightarrow> sender \<Rightarrow> sendResult \<times> sender" where
  "createRequest cd s = createSendPromise (createRequest_packet cd) s"

text \<open>
  The second argument is \<^verbatim>\<open>inFlightRequests[type]\<close>, which is \<^verbatim>\<open>undefined\<close> for a
  type that has no in-flight object; \<^verbatim>\<open>Object.keys(undefined)\<close> throws.
\<close>

definition sendChunkToTransport ::
  "chunkData option \<Rightarrow> inflight option \<Rightarrow> nat \<Rightarrow> sender \<Rightarrow> sendResult \<times> sender" where
  "sendChunkToTransport chunkData inFlight maxFlightRequests s =
     (case chunkData of
        None \<Rightarrow> (DroppedR ''chunkData is null'', s)
      | Some cd \<Rightarrow>
          (case inFlight of
             None \<Rightarrow> (Threw TypeError, s)
           | Some m \<Rightarrow>
               if length m \<ge> maxFlightRequests
               then (DroppedR ''too many inflight requests'', s)
               else createRequest cd s))"

subsection \<open>Session setup and subscriptions\<close>

definition checkTrackData :: "tracks \<Rightarrow> string" where
  "checkTrackData trs =
     (if length trs \<le> 0 then ''Number of Track Ids to announce needs to be > 0''
      else if list_ex (\<lambda>kt. namespace (snd kt) = None \<or> name_t (snd kt) = None \<or>
                              authInfo (snd kt) = None) trs
      then ''Track malformed, needs to contain namespace, name, and authInfo''
      else [])"

text \<open>
  The ANNOUNCE loop of \<^verbatim>\<open>moqCreatePublisherSession\<close>. \<open>replies\<close> are the namespaces
  of the ANNOUNCE_OK messages the peer sends, in order; reading past the last one fails
  (the parser of \<^verbatim>\<open>moqt.js\<close> throws on a closed stream). The result lists the control
  messages sent, the events posted, and how the loop ended.
\<close>

fun announce_loop ::
  "tracks \<Rightarrow> string option list \<Rightarrow> string list \<Rightarrow>
     ctrlMsg list \<times> event list \<times> (error + unit)" where
  "announce_loop [] announcedNamespaces replies = ([], [], Inr ())"
| "announce_loop ((trackType, trackData) # rest) announcedNamespaces replies =
     (if namespace trackData \<in> set announcedNamespaces
      then announce_loop rest announcedNamespaces replies
      else
        (case replies of
           [] \<Rightarrow> ([Announce (namespace trackData) (authInfo trackData)], [],
                  Inl (Error ''control stream closed''))
         | announceResp # replies' \<Rightarrow>
             if namespace trackData \<noteq> Some announceResp
             then ([Announce (namespace trackData) (authInfo trackData)],
                   [Info ''Received ANNOUNCE response''],
                   Inl (Error ''expecting namespace''))
             else
               (case announce_loop rest (announcedNamespaces @ [namespace trackData]) replies' of
                  (out, evs, res) \<Rightarrow>
                    (Announce (namespace trackData) (authInfo trackData) # out,
                     Info ''Received ANNOUNCE response'' # evs, res))))"

definition moqCreatePublisherSession ::
  "tracks \<Rightarrow> nat \<Rightarrow> string list \<Rightarrow> ctrlMsg list \<times> event list \<times> (error + unit)" where
  "moqCreatePublisherSession trs role replies =
     (if role \<noteq> MOQ_PARAMETER_ROLE_SUBSCRIBER \<and> role \<noteq> MOQ_PARAMETER_ROLE_BOTH
      then ([Setup MOQ_PARAMETER_ROLE_PUBLISHER], [Info ''Received SETUP response''],
            Inl (Error ''role not supported''))
      else
        (case announce_loop trs [] replies of
           (out, evs, res) \<Rightarrow>
             (Setup MOQ_PARAMETER_ROLE_PUBLISHER # out,
              Info ''Received SETUP response'' # evs, res)))"

text \<open>The namespaces of the ANNOUNCE messages among the control messages sent, in order.\<close>

fun announced :: "ctrlMsg list \<Rightarrow> string option list" where
  "announced [] = []"
| "announced (Announce ns a # ms) = ns # announced ms"
| "announced (m # ms) = announced ms"

text \<open>A parsed SUBSCRIBE_REQUEST: namespace, track name and the AUTH_INFO parameter.\<close>

record subscribe =
  sub_namespace :: string
  sub_trackName :: string
  sub_authInfo :: "string option"

definition getTrack :: "tracks \<Rightarrow> string \<Rightarrow> string \<Rightarrow> (string \<times> track) option" where
  "getTrack trs ns trackName =
     find (\<lambda>kt. namespace (snd kt) = Some ns \<and> name_t (snd kt) = Some trackName) trs"

text \<open>
  \<^verbatim>\<open>getTrack\<close> returns the track object itself, and the loop increments its counter in
  place: the first entry that matches is the one that changes.
\<close>

fun update_first :: "('a \<Rightarrow> bool) \<Rightarrow> ('a \<Rightarrow> 'a) \<Rightarrow> 'a list \<Rightarrow> 'a list" where
  "update_first P f [] = []"
| "update_first P f (x # xs) = (if P x then f x # xs else x # update_first P f xs)"

definition add_subscriber :: "track \<Rightarrow> track" where
  "add_subscriber t =
     t\<lparr>numSubscribers := (case numSubscribers t of Some n \<Rightarrow> Some (n + 1) | None \<Rightarrow> Some 1)\<rparr>"

text \<open>The body of the loop of \<^verbatim>\<open>startLoopSubscriptionsLoop\<close>, for one request read.\<close>

definition subscription_body :: "subscribe \<Rightarrow> sender \<Rightarrow> sender" where
  "subscription_body sub s =
     (case getTrack (tracks s) (sub_namespace sub) (sub_trackName sub) of
        None \<Rightarrow> emit [Err ''Invalid subscribe received''] s
      | Some (k, track) \<Rightarrow>
          if authInfo track \<noteq> sub_authInfo sub
          then emit [Err ''Invalid subscribe authInfo''] s
          else
            emit [Info ''New subscriber for track'']
              (s\<lparr>tracks :=
                    update_first
                      (\<lambda>kt. namespace (snd kt) = Some (sub_namespace sub) \<and>
                             name_t (snd kt) = Some (sub_trackName sub))
                      (\<lambda>kt. (fst kt, add_subscriber (snd kt))) (tracks s),
                  controlOut := controlOut s @
                    [SubscribeResponse (sub_namespace sub) (sub_trackName sub) (id_t track) 0]\<rparr>))"

text \<open>
  The loop itself, for the requests that arrive while nothing else runs: it goes on as
  long as the worker is Running, and stays suspended in the read when no request is left.
\<close>

fun startLoopSubscriptionsLoop :: "subscribe list \<Rightarrow> sender \<Rightarrow> sender" where
  "startLoopSubscriptionsLoop [] s = s"
| "startLoopSubscriptionsLoop (sub # subs) s =
     (if workerState s = Running
      then startLoopSubscriptionsLoop subs (subscription_body sub s)
      else s)"

subsection \<open>The message listener\<close>

text \<open>
  \<^verbatim>\<open>e.data\<close> of a host message: its \<^verbatim>\<open>type\<close>, the \<^verbatim>\<open>muxerSenderConfig\<close> an init
  message carries, and the chunk fields a chunk message carries.
\<close>

record muxerSenderConfig =
  urlHostPort :: "string option"
  isSendingStats_cfg :: "bool option"
  moqTracks :: "tracks option"

record message =
  type_m :: string
  config_m :: muxerSenderConfig
  seqId_m :: "int option"
  chunk_type_m :: string
  pId_m :: string

text \<open>
  What the network does for one handler. \<open>transport\<close>: whether the URL, the
  fingerprint fetch, the WebTransport session and the control stream come up
  (\<open>NoTransport\<close> fails before \<^verbatim>\<open>moqt.wt\<close> is assigned, \<open>TransportNotReady\<close> after).
  \<open>setup_role\<close>: the role parameter of SETUP_OK. \<open>announce_replies\<close>: the ANNOUNCE_OK
  namespaces. \<open>close_rejects\<close>: whether one of the awaited close promises rejects.
\<close>

datatype transport_outcome = NoTransport | TransportNotReady | TransportReady

record world =
  transport :: transport_outcome
  setup_role :: nat
  announce_replies :: "string list"
  close_rejects :: bool

definition moqResetState :: "sender \<Rightarrow> sender" where
  "moqResetState s = s\<lparr>moqPublisherState := Map.empty\<rparr>"

text \<open>
  \<^verbatim>\<open>moqClose\<close> is a function of \<^verbatim>\<open>moqt.js\<close>.
  Modelled from the spec: it closes the transport; \<^verbatim>\<open>moqt.wt\<close> is null afterwards.
\<close>

definition moqClose :: "sender \<Rightarrow> sender" where
  "moqClose s = s\<lparr>wt := False\<rparr>"

text \<open>
  The \<^verbatim>\<open>stop\<close> branch. The wait for the in-flight closes and the closing of the transport
  that follows it are one step here, taken with the listener; the closes themselves
  settle in steps of their own.
\<close>

definition on_stop :: "world \<Rightarrow> sender \<Rightarrow> sender" where
  "on_stop w s =
     (let s1 = s\<lparr>workerState := Stopped\<rparr>;
          s2 = (case getAllInflightRequestsArray s1 of
                  Inl e \<Rightarrow> emit [Info ''Aborting streams while exiting. Err: ''] s1
                | Inr ps \<Rightarrow>
                    if ps \<noteq> [] \<and> close_rejects w
                    then emit [Info ''Aborting streams while exiting. Err: ''] s1
                    else s1)
      in moqClose s2)"

text \<open>
  The \<^verbatim>\<open>muxersendini\<close> branch up to its first \<^verbatim>\<open>await\<close>: the state check, the
  configuration, the two checks, \<^verbatim>\<open>moqResetState\<close>, and the call of \<^verbatim>\<open>moqClose\<close> at
  which the handler is suspended.
\<close>

definition on_muxersendini :: "muxerSenderConfig \<Rightarrow> sender \<Rightarrow> sender" where
  "on_muxersendini cfg s =
     (if workerState s \<noteq> Instantiated
      then emit [Err ''received ini message in wrong state. State: ''] s
      else
        (let urlHostPortEp = (case urlHostPort cfg of Some u \<Rightarrow> u | None \<Rightarrow> []);
             s1 = s\<lparr>isSendingStats :=
                       (case isSendingStats_cfg cfg of Some b \<Rightarrow> b | None \<Rightarrow> isSendingStats s),
                     tracks := (case moqTracks cfg of Some t \<Rightarrow> t | None \<Rightarrow> tracks s)\<rparr>
         in if urlHostPortEp = [] then emit [Err ''Empty host port''] s1
            else if checkTrackData (tracks s1) \<noteq> [] then emit [Err (checkTrackData (tracks s1))] s1
            else (moqResetState s1)\<lparr>initialising := initialising s1 + 1\<rparr>))"

text \<open>
  The rest of the branch, from the return of \<^verbatim>\<open>moqClose\<close> to the end of the handler:
  the transport is closed, then the fingerprint is fetched, the WebTransport session and
  the control stream are opened and the handshake is made, and these follow one another
  in this one step. \<^verbatim>\<open>tracks\<close> and the other bindings are read as they are when the
  step runs. The handler does not test \<^verbatim>\<open>workerState\<close> again: when the handshake
  succeeds it assigns Running whatever the state has become in the meantime.
\<close>

definition on_muxersendini_resume :: "world \<Rightarrow> sender \<Rightarrow> sender" where
  "on_muxersendini_resume w s =
     (if initialising s = 0 then s
      else
        (let s2 = moqClose (s\<lparr>initialising := initialising s - 1\<rparr>) in
         case transport w of
           NoTransport \<Rightarrow> emit [Err ''Initializing MOQ. Err: ''] s2
         | TransportNotReady \<Rightarrow> emit [Err ''Initializing MOQ. Err: ''] (s2\<lparr>wt := True\<rparr>)
         | TransportReady \<Rightarrow>
             (case moqCreatePublisherSession (tracks s2) (setup_role w) (announce_replies w) of
                (out, evs, res) \<Rightarrow>
                  (let s3 = emit evs (s2\<lparr>wt := True, controlOut := controlOut s2 @ out\<rparr>) in
                   case res of
                     Inl err \<Rightarrow> emit [Err ''Initializing MOQ. Err: ''] s3
                   | Inr _ \<Rightarrow>
                       emit [Info ''MOQ Initialized, waiting for subscriptions'',
                             Info ''Started subscription loop'']
                         (s3\<lparr>inFlightRequests := initInflightReqData (tracks s3),
                             workerState := Running\<rparr>)))))"

text \<open>
  The chunk branch, for a message whose type is a configured track with a subscriber.
  The statistics are posted before the listener returns; the outcome of the send is
  reported when its promise settles, which for a drop or a throw in the synchronous part
  is right after.
\<close>

definition report_stats :: "sender \<Rightarrow> sender" where
  "report_stats s =
     (if isSendingStats s
      then (case getInflightRequestsReport s of
              Inl err \<Rightarrow> s
            | Inr rep \<Rightarrow> emit [SendStats rep] s)
      else s)"

definition send_outcome :: "int \<Rightarrow> sendResult \<Rightarrow> event list" where
  "send_outcome sq r =
     (case r of
        DroppedR m \<Rightarrow> [Dropped (Some sq) m]
      | Threw err \<Rightarrow>
          [Dropped (Some sq) (error_message err),
           Err (''error sending chunk. Err:  '' @ error_message err)]
      | Suspended \<Rightarrow> [])"

definition message_chunkData :: "message \<Rightarrow> chunkData" where
  "message_chunkData e =
     \<lparr>mediaType_c = type_m e, seqId_c = (case seqId_m e of None \<Rightarrow> 0 | Some n \<Rightarrow> n),
      chunk_type = chunk_type_m e, pId_c = pId_m e\<rparr>"

definition on_chunk :: "message \<Rightarrow> track \<Rightarrow> sender \<Rightarrow> sender" where
  "on_chunk e t s =
     (let chunkData = message_chunkData e in
      case sendChunkToTransport (Some chunkData) (inFlightRequests s (type_m e))
             (maxInFlightRequests t) s of
        (r, s1) \<Rightarrow> emit (send_outcome (seqId_c chunkData) r) (report_stats s1))"

text \<open>
  The listener. \<^verbatim>\<open>type in tracks\<close> also holds for a type that names an inherited
  property; \<^verbatim>\<open>tracks[type]\<close> is then a function or a prototype object, which has no
  \<^verbatim>\<open>numSubscribers\<close>. The world of a message is what the network does for the \<^verbatim>\<open>stop\<close>
  branch.
\<close>

definition onmessage :: "world \<Rightarrow> message \<Rightarrow> sender \<Rightarrow> sender" where
  "onmessage w e s0 =
     (let s = (if workerState s0 = Created then s0\<lparr>workerState := Instantiated\<rparr> else s0) in
      if workerState s = Stopped
      then emit [Info ''Muxer-send is stopped it does not accept messages''] s
      else if type_m e = ''stop'' then on_stop w s
      else if type_m e = ''muxersendini'' then on_muxersendini (config_m e) s
      else if workerState s \<noteq> Running
      then emit [Dropped (seqId_m e) ''Dropped chunk because transport is NOT open yet''] s
      else if \<not> in_object (type_m e) (map fst (tracks s))
      then emit [Err ''Invalid message received''] s
      else
        (case map_of (tracks s) (type_m e) of
           None \<Rightarrow>
             emit [Dropped (seqId_m e) ''Dropped chunk because there is NO subscribers for track''] s
         | Some t \<Rightarrow>
             (case numSubscribers t of
                None \<Rightarrow>
                  emit [Dropped (seqId_m e) ''Dropped chunk because there is NO subscribers for track''] s
              | Some n \<Rightarrow>
                  if n \<le> 0
                  then emit [Dropped (seqId_m e)
                               ''Dropped chunk because there is NO subscribers for track''] s
                  else on_chunk e t s)))"

subsection \<open>Steps of the publisher\<close>

text \<open>
  The worker is single-threaded: between two suspension points its code runs alone. A
  step is one such run: the listener on a host message (up to the suspension of the
  send or of the init), the rest of a send once its stream exists, the failure of a
  stream creation, the settling of a close promise (resolved, or rejected with a
  message), one iteration of the subscription loop, and the rest of a suspended init,
  with what the network does for it.
\<close>

datatype action =
    Message world message
  | StreamOpened nat
  | StreamRejected nat string
  | CloseSettled nat "string option"
  | SubscribeRequest subscribe
  | InitResumed world

definition remove_nth :: "nat \<Rightarrow> 'a list \<Rightarrow> 'a list" where
  "remove_nth n xs = take n xs @ drop (Suc n) xs"

definition send_failed :: "pendingSend \<Rightarrow> string \<Rightarrow> sender \<Rightarrow> sender" where
  "send_failed pd m s =
     emit [Dropped (Some (seqId (p_packet pd))) m, Err (''error sending chunk. Err:  '' @ m)] s"

definition stream_opened :: "nat \<Rightarrow> sender \<Rightarrow> sender" where
  "stream_opened n s =
     (if n < length (awaiting s)
      then (let pd = awaiting s ! n;
                s1 = s\<lparr>awaiting := remove_nth n (awaiting s)\<rparr>
            in case createSendPromise_resume pd s1 of
                 (Some err, s2) \<Rightarrow> send_failed pd (error_message err) s2
               | (None, s2) \<Rightarrow> s2\<lparr>closing := closing s2 @ [pd]\<rparr>)
      else s)"

definition stream_rejected :: "nat \<Rightarrow> string \<Rightarrow> sender \<Rightarrow> sender" where
  "stream_rejected n m s =
     (if n < length (awaiting s)
      then send_failed (awaiting s ! n) m (s\<lparr>awaiting := remove_nth n (awaiting s)\<rparr>)
      else s)"

definition close_settled :: "nat \<Rightarrow> string option \<Rightarrow> sender \<Rightarrow> sender" where
  "close_settled n outcome s =
     (if n < length (closing s)
      then (let pd = closing s ! n;
                s1 = s\<lparr>closing := remove_nth n (closing s)\<rparr>;
                s2 = (case removeFromInflight (mediaType (p_packet pd)) (pId (p_packet pd)) s1 of
                        Inl err \<Rightarrow> s1
                      | Inr s' \<Rightarrow> s')
            in case outcome of
                 None \<Rightarrow> emit [Debug ''SENT CHUNK''] s2
               | Some m \<Rightarrow> send_failed pd m s2)
      else s)"

fun step :: "action \<Rightarrow> sender \<Rightarrow> sender" where
  "step (Message w e) s = onmessage w e s"
| "step (StreamOpened n) s = stream_opened n s"
| "step (StreamRejected n m) s = stream_rejected n m s"
| "step (CloseSettled n outcome) s = close_settled n outcome s"
| "step (SubscribeRequest sub) s = subscription_body sub s"
| "step (InitResumed w) s = on_muxersendini_resume w s"

definition run :: "action list \<Rightarrow> sender \<Rightarrow> sender" where
  "run steps s = fold step steps s"

text \<open>
  The \<open>(groupSeq, objSeq)\<close> pairs of the objects written so far for one track id, in the
  order written, and the strict lexicographic order on such pairs.
\<close>

definition emitted :: "nat \<Rightarrow> sender \<Rightarrow> (nat \<times> nat) list" where
  "emitted tid s =
     map (\<lambda>ob. (groupSeq ob, objSeq ob)) (filter (\<lambda>ob. o_trackId ob = tid) (written s))"

definition pair_lt :: "nat \<times> nat \<Rightarrow> nat \<times> nat \<Rightarrow> bool" where
  "pair_lt a b = (fst a < fst b \<or> (fst a = fst b \<and> snd a < snd b))"

text \<open>
  What holds of the objects written after every step: before the worker is Running
  nothing is written and no send is suspended; for each track id the pairs written are
  strictly increasing, and all of them lie below the track's current
  \<open>(currentGroupSeq, currentObjectSeq)\<close>.
\<close>

definition below_state :: "nat \<Rightarrow> sender \<Rightarrow> bool" where
  "below_state tid s =
     list_all (\<lambda>pr. case moqPublisherState s tid of
                       None \<Rightarrow> False
                     | Some st \<Rightarrow> pair_lt pr (currentGroupSeq st, currentObjectSeq st))
              (emitted tid s)"

definition ordered_inv :: "sender \<Rightarrow> bool" where
  "ordered_inv s =
     ((workerState s = Created \<or> workerState s = Instantiated \<longrightarrow>
         written s = [] \<and> awaiting s = []) \<and>
      (\<forall>tid. sorted_wrt pair_lt (emitted tid s) \<and> below_state tid s))"

text \<open>
  The objects written so far for one track id. \<open>new_groups g obs\<close> says of a list of
  objects that follows an object of group \<open>g\<close>: every object of the \<^verbatim>\<open>data\<close> track in
  it has \<open>objSeq = 0\<close> and a \<open>groupSeq\<close> one greater than the object before it.
\<close>

definition on_track :: "nat \<Rightarrow> sender \<Rightarrow> moqObject list" where
  "on_track tid s = filter (\<lambda>ob. o_trackId ob = tid) (written s)"

fun new_groups :: "nat \<Rightarrow> moqObject list \<Rightarrow> bool" where
  "new_groups g [] = True"
| "new_groups g (ob # obs) =
     ((o_mediaType ob = ''data'' \<longrightarrow> groupSeq ob = g + 1 \<and> objSeq ob = 0) \<and>
      new_groups (groupSeq ob) obs)"

definition last_group :: "nat \<Rightarrow> moqObject list \<Rightarrow> nat" where
  "last_group g obs = (if obs = [] then g else groupSeq (last obs))"

definition data_inv :: "sender \<Rightarrow> bool" where
  "data_inv s =
     ((workerState s = Created \<or> workerState s = Instantiated \<longrightarrow>
         written s = [] \<and> awaiting s = []) \<and>
      list_all (\<lambda>pd. mediaType (p_packet pd) = ''data'' \<longrightarrow> chunkType (p_packet pd) = ''key'')
        (awaiting s) \<and>
      (\<forall>tid. new_groups 0 (on_track tid s) \<and>
         (case moqPublisherState s tid of
            None \<Rightarrow> on_track tid s = []
          | Some st \<Rightarrow> currentGroupSeq st = last_group 0 (on_track tid s))))"

text \<open>The worker as the module initialises it.\<close>

definition sender_init :: sender where
  "sender_init =
     \<lparr>workerState = Created, isSendingStats = True, tracks = [],
      moqPublisherState = Map.empty, inFlightRequests = Map.empty, wt = False,
      awaiting = [], closing = [], written = [], toMain = [], controlOut = [],
      initialising = 0\<rparr>"

section \<open>The subscriber worker\<close>

record downloaderConfig =
  urlHostPort_d :: "string option"
  urlPath_d :: "string option"
  isSendingStats_dcfg :: "bool option"
  moqTracks_d :: "tracks option"

record message_d =
  type_d :: string
  config_d :: downloaderConfig

record downloader =
  workerState_d :: StateEnum
  urlHostPortEp_d :: string
  isSendingStats_d :: bool
  tracks_d :: tracks
  wt_d :: bool
  toMain_d :: "event list"
  controlOut_d :: "ctrlMsg list"

definition emit_d :: "event list \<Rightarrow> downloader \<Rightarrow> downloader" where
  "emit_d evs s = s\<lparr>toMain_d := toMain_d s @ evs\<rparr>"

text \<open>A parsed SUBSCRIBE_RESPONSE, and what the network does during the handshake.\<close>

record subscribeResp =
  r_namespace :: string
  r_trackName :: string
  r_trackId :: nat

record world_d =
  transport_d :: transport_outcome
  setup_role_d :: nat
  subscribe_replies :: "subscribeResp list"

text \<open>
  The SUBSCRIBE loop of \<^verbatim>\<open>moqCreateSubscriberSession\<close>; it stores the track id of each
  reply in the track, so the tracks as the loop leaves them are part of the result.
\<close>

fun subscribe_loop ::
  "tracks \<Rightarrow> subscribeResp list \<Rightarrow> ctrlMsg list \<times> event list \<times> tracks \<times> (error + unit)" where
  "subscribe_loop [] replies = ([], [], [], Inr ())"
| "subscribe_loop ((trackType, trackData) # rest) replies =
     (case replies of
        [] \<Rightarrow> ([Subscribe (namespace trackData) (name_t trackData) (authInfo trackData)], [],
               (trackType, trackData) # rest, Inl (Error ''control stream closed''))
      | subscribeResp # replies' \<Rightarrow>
          if namespace trackData \<noteq> Some (r_namespace subscribeResp) \<or>
             name_t trackData \<noteq> Some (r_trackName subscribeResp)
          then ([Subscribe (namespace trackData) (name_t trackData) (authInfo trackData)],
                [Info ''Received SUBSCRIBE response''],
                (trackType, trackData) # rest, Inl (Error ''expecting ''))
          else
            (case subscribe_loop rest replies' of
               (out, evs, trs, res) \<Rightarrow>
                 (Subscribe (namespace trackData) (name_t trackData) (authInfo trackData) # out,
                  Info ''Received SUBSCRIBE response'' # evs,
                  (trackType, trackData\<lparr>id_t := r_trackId subscribeResp\<rparr>) # trs, res)))"

definition moqCreateSubscriberSession ::
  "tracks \<Rightarrow> nat \<Rightarrow> subscribeResp list \<Rightarrow>
     ctrlMsg list \<times> event list \<times> tracks \<times> (error + unit)" where
  "moqCreateSubscriberSession trs role replies =
     (if role \<noteq> MOQ_PARAMETER_ROLE_PUBLISHER \<and> role \<noteq> MOQ_PARAMETER_ROLE_BOTH
      then ([Setup MOQ_PARAMETER_ROLE_SUBSCRIBER], [], trs, Inl (Error ''role not supported''))
      else
        (case subscribe_loop trs replies of
           (out, evs, trs', res) \<Rightarrow>
             (Setup MOQ_PARAMETER_ROLE_SUBSCRIBER # out,
              Info ''Received SETUP response'' # evs, trs', res)))"

text \<open>
  The \<^verbatim>\<open>downloadersendini\<close> branch; \<^verbatim>\<open>checkTrackData\<close> of the subscriber is the same
  function as the publisher's. The branch is taken in one step with the listener, its
  awaits included. The receive loop it starts at the end is not modelled.
\<close>

definition on_downloadersendini :: "world_d \<Rightarrow> downloaderConfig \<Rightarrow> downloader \<Rightarrow> downloader" where
  "on_downloadersendini w cfg s =
     (if workerState_d s \<noteq> Instantiated
      then emit_d [Err ''received ini message in wrong state. State: ''] s
      else if urlHostPort_d cfg = None \<or> urlPath_d cfg = None
      then emit_d [Err ''We need host, streamId to start playback''] s
      else
        (let s1 = s\<lparr>urlHostPortEp_d :=
                       (case urlHostPort_d cfg of Some u \<Rightarrow> u | None \<Rightarrow> urlHostPortEp_d s),
                     isSendingStats_d :=
                       (case isSendingStats_dcfg cfg of Some b \<Rightarrow> b | None \<Rightarrow> isSendingStats_d s),
                     tracks_d := (case moqTracks_d cfg of Some t \<Rightarrow> t | None \<Rightarrow> tracks_d s)\<rparr>
         in if checkTrackData (tracks_d s1) \<noteq> [] then emit_d [Err (checkTrackData (tracks_d s1))] s1
            else
              (let s2 = s1\<lparr>wt_d := False\<rparr> in
               case transport_d w of
                 NoTransport \<Rightarrow> emit_d [Err ''Initializing MOQ. Err: ''] s2
               | TransportNotReady \<Rightarrow> emit_d [Err ''Initializing MOQ. Err: ''] (s2\<lparr>wt_d := True\<rparr>)
               | TransportReady \<Rightarrow>
                   (case moqCreateSubscriberSession (tracks_d s2) (setup_role_d w)
                           (subscribe_replies w) of
                      (out, evs, trs, res) \<Rightarrow>
                        (let s3 = emit_d evs
                                    (s2\<lparr>wt_d := True, tracks_d := trs,
                                        controlOut_d := controlOut_d s2 @ out\<rparr>) in
                         case res of
                           Inl err \<Rightarrow> emit_d [Err ''Initializing MOQ. Err: ''] s3
                         | Inr _ \<Rightarrow>
                             emit_d [Info ''MOQ Initialized''] (s3\<lparr>workerState_d := Running\<rparr>))))))"

definition onmessage_d :: "world_d \<Rightarrow> message_d \<Rightarrow> downloader \<Rightarrow> downloader" where
  "onmessage_d w e s0 =
     (let s = (if workerState_d s0 = Created \<or> workerState_d s0 = Stopped
               then s0\<lparr>workerState_d := Instantiated\<rparr> else s0) in
      if workerState_d s = Stopped
      then emit_d [Info ''downloader is stopped it does not accept messages''] s
      else if type_d e = ''stop'' then s\<lparr>workerState_d := Stopped, wt_d := False\<rparr>
      else if type_d e = ''downloadersendini'' then on_downloadersendini w (config_d e) s
      else s)"

definition downloader_init :: downloader where
  "downloader_init =
     \<lparr>workerState_d = Created, urlHostPortEp_d = [], isSendingStats_d = False, tracks_d = [],
      wt_d = False, toMain_d = [], controlOut_d = []\<rparr>"

section \<open>Example configurations\<close>

text \<open>
  A publisher as a successful init leaves it (Running, transport open, one empty
  in-flight object per track, no publisher state), tracks that have a subscriber, and
  host messages.
\<close>

definition subscribed :: "track \<Rightarrow> track" where
  "subscribed t = t\<lparr>numSubscribers := Some 1\<rparr>"

definition running :: "tracks \<Rightarrow> sender" where
  "running trs =
     \<lparr>workerState = Running, isSendingStats = False, tracks = trs,
      moqPublisherState = Map.empty, inFlightRequests = initInflightReqData trs, wt = True,
      awaiting = [], closing = [], written = [], toMain = [], controlOut = [],
      initialising = 0\<rparr>"

definition two_tracks :: tracks where
  "two_tracks = [(''audio'', subscribed audio_track), (''video'', subscribed video_track)]"

definition no_config :: muxerSenderConfig where
  "no_config = \<lparr>urlHostPort = None, isSendingStats_cfg = None, moqTracks = None\<rparr>"

definition chunk_msg :: "string \<Rightarrow> string \<Rightarrow> int \<Rightarrow> message" where
  "chunk_msg ty ct sq =
     \<lparr>type_m = ty, config_m = no_config, seqId_m = Some sq, chunk_type_m = ct,
      pId_m = ty @ ''-'' @ ct\<rparr>"

definition stop_msg :: message where
  "stop_msg = \<lparr>type_m = ''stop'', config_m = no_config, seqId_m = None, chunk_type_m = [],
     pId_m = []\<rparr>"

definition quiet :: world where
  "quiet = \<lparr>transport = TransportReady, setup_role = MOQ_PARAMETER_ROLE_SUBSCRIBER,
     announce_replies = [''vc''], close_rejects = False\<rparr>"

text \<open>A subscriber configuration for the video track, and a peer that accepts it.\<close>

definition ini_msg_d :: message_d where
  "ini_msg_d =
     \<lparr>type_d = ''downloadersendini'',
      config_d = \<lparr>urlHostPort_d = Some ''https://localhost:4433/moq'', urlPath_d = Some ''moq'',
                  isSendingStats_dcfg = None, moqTracks_d = Some [(''video'', video_track)]\<rparr>\<rparr>"

definition stop_msg_d :: message_d where
  "stop_msg_d =
     \<lparr>type_d = ''stop'',
      config_d = \<lparr>urlHostPort_d = None, urlPath_d = None, isSendingStats_dcfg = None,
                  moqTracks_d = None\<rparr>\<rparr>"

definition peer_d :: world_d where
  "peer_d = \<lparr>transport_d = TransportReady, setup_role_d = MOQ_PARAMETER_ROLE_PUBLISHER,
     subscribe_replies = [\<lparr>r_namespace = ''vc'', r_trackName = ''video0'', r_trackId = 7\<rparr>]\<rparr>"

text \<open>A publisher configuration with the two tracks, and subscribe requests.\<close>

definition ini_msg :: message where
  "ini_msg =
     \<lparr>type_m = ''muxersendini'',
      config_m = \<lparr>urlHostPort = Some ''https://localhost:4433/moq'',
                  isSendingStats_cfg = Some False, moqTracks = Some two_tracks\<rparr>,
      seqId_m = None, chunk_type_m = [], pId_m = []\<rparr>"

definition sub_msg :: "string \<Rightarrow> subscribe" where
  "sub_msg auth = \<lparr>sub_namespace = ''vc'', sub_trackName = ''video0'', sub_authInfo = Some auth\<rparr>"

text \<open>
  The publisher after the init message and the handshake, and after a video key chunk and a video delta
  chunk have been sent one after the other, each stream opening before the next chunk
  arrives.
\<close>

definition ini_done :: sender where
  "ini_done = on_muxersendini_resume quiet (onmessage quiet ini_msg sender_init)"

definition video_send :: "string \<Rightarrow> int \<Rightarrow> pendingSend" where
  "video_send ct sq =
     \<lparr>p_packet = \<lparr>mediaType = ''video'', chunkType = ct, seqId = sq, pId = ''video-'' @ ct\<rparr>,
      p_trackId = 1, p_sendOrder = sq\<rparr>"

definition video_object :: "nat \<Rightarrow> nat \<Rightarrow> int \<Rightarrow> moqObject" where
  "video_object g ob sq =
     \<lparr>o_mediaType = ''video'', o_trackId = 1, groupSeq = g, objSeq = ob, sendOrder = sq\<rparr>"

definition key_asked :: sender where
  "key_asked = ini_done\<lparr>moqPublisherState := [1 \<mapsto> createTrackState],
     awaiting := [video_send ''key'' 0]\<rparr>"

definition key_sent :: sender where
  "key_sent =
     ini_done\<lparr>moqPublisherState := [1 \<mapsto> \<lparr>currentGroupSeq = 1, currentObjectSeq = 1\<rparr>],
       written := [video_object 1 0 0],
       inFlightRequests := (initInflightReqData two_tracks)(''video'' \<mapsto>
          [(''video-key'', Promise ''video-key'')]),
       closing := [video_send ''key'' 0],
       toMain := toMain ini_done @ [Debug ''Sending MOQT'']\<rparr>"

definition delta_asked :: sender where
  "delta_asked = key_sent\<lparr>awaiting := [video_send ''delta'' 1]\<rparr>"

definition delta_sent :: sender where
  "delta_sent =
     key_sent\<lparr>moqPublisherState := [1 \<mapsto> \<lparr>currentGroupSeq = 1, currentObjectSeq = 2\<rparr>],
       written := [video_object 1 0 0, video_object 1 1 1],
       inFlightRequests := (initInflightReqData two_tracks)(''video'' \<mapsto>
          [(''video-key'', Promise ''video-key''), (''video-delta'', Promise ''video-delta'')]),
       closing := [video_send ''key'' 0, video_send ''delta'' 1],
       toMain := toMain ini_done @ [Debug ''Sending MOQT'', Debug ''Sending MOQT'']\<rparr>"

definition key_delta_actions :: "action list" where
  "key_delta_actions =
     [Message quiet ini_msg, InitResumed quiet,
      Message quiet (chunk_msg ''video'' ''key'' 0), StreamOpened 0,
      Message quiet (chunk_msg ''video'' ''delta'' 1), StreamOpened 0]"

text \<open>
  A publisher with a \<^verbatim>\<open>data\<close> track, and the states it goes through when two data
  chunks, both of inbound type \<^verbatim>\<open>delta\<close>, are sent one after the other.
\<close>

definition data_track :: track where
  "data_track = \<lparr>id_t = 2, namespace = Some ''vc'', name_t = Some ''data0'',
     authInfo = Some ''secret'', isHipri = False, maxInFlightRequests = 10,
     numSubscribers = Some 1\<rparr>"

definition data_tracks :: tracks where
  "data_tracks = [(''data'', data_track)]"

definition ini_data_msg :: message where
  "ini_data_msg =
     \<lparr>type_m = ''muxersendini'',
      config_m = \<lparr>urlHostPort = Some ''https://localhost:4433/moq'',
                  isSendingStats_cfg = Some False, moqTracks = Some data_tracks\<rparr>,
      seqId_m = None, chunk_type_m = [], pId_m = []\<rparr>"

definition data_msg :: "string \<Rightarrow> string \<Rightarrow> int \<Rightarrow> message" where
  "data_msg pid ct sq =
     \<lparr>type_m = ''data'', config_m = no_config, seqId_m = Some sq, chunk_type_m = ct,
      pId_m = pid\<rparr>"

definition data_ready :: sender where
  "data_ready = on_muxersendini_resume quiet (onmessage quiet ini_data_msg sender_init)"

definition data_send :: "string \<Rightarrow> int \<Rightarrow> pendingSend" where
  "data_send pid sq =
     \<lparr>p_packet = \<lparr>mediaType = ''data'', chunkType = ''key'', seqId = sq, pId = pid\<rparr>,
      p_trackId = 2, p_sendOrder = sq\<rparr>"

definition data_object :: "nat \<Rightarrow> int \<Rightarrow> moqObject" where
  "data_object g sq =
     \<lparr>o_mediaType = ''data'', o_trackId = 2, groupSeq = g, objSeq = 0, sendOrder = sq\<rparr>"

definition first_asked :: sender where
  "first_asked = data_ready\<lparr>moqPublisherState := [2 \<mapsto> createTrackState],
     awaiting := [data_send ''d1'' 0]\<rparr>"

definition first_sent :: sender where
  "first_sent =
     data_ready\<lparr>moqPublisherState := [2 \<mapsto> \<lparr>currentGroupSeq = 1, currentObjectSeq = 1\<rparr>],
       written := [data_object 1 0],
       inFlightRequests := (initInflightReqData data_tracks)(''data'' \<mapsto>
          [(''d1'', Promise ''d1'')]),
       closing := [data_send ''d1'' 0],
       toMain := toMain data_ready @ [Debug ''Sending MOQT'']\<rparr>"

definition second_asked :: sender where
  "second_asked = first_sent\<lparr>awaiting := [data_send ''d2'' 1]\<rparr>"

definition second_sent :: sender where
  "second_sent =
     first_sent\<lparr>moqPublisherState := [2 \<mapsto> \<lparr>currentGroupSeq = 2, currentObjectSeq = 1\<rparr>],
       written := [data_object 1 0, data_object 2 1],
       inFlightRequests := (initInflightReqData data_tracks)(''data'' \<mapsto>
          [(''d1'', Promise ''d1''), (''d2'', Promise ''d2'')]),
       closing := [data_send ''d1'' 0, data_send ''d2'' 1],
       toMain := toMain data_ready @ [Debug ''Sending MOQT'', Debug ''Sending MOQT'']\<rparr>"

definition data_actions :: "action list" where
  "data_actions =
     [Message quiet ini_data_msg, InitResumed quiet,
      Message quiet (data_msg ''d1'' ''delta'' 0), StreamOpened 0,
      Message quiet (data_msg ''d2'' ''delta'' 1), StreamOpened 0]"

text \<open>
  A publisher with one video track that allows a single in-flight request, after the
  handshake and the subscribe request of one subscriber; and two key chunks that both
  arrive before the stream of the first is open.
\<close>

definition narrow_track :: track where
  "narrow_track = \<lparr>id_t = 1, namespace = Some ''vc'', name_t = Some ''video0'',
     authInfo = Some ''secret'', isHipri = False, maxInFlightRequests = 1,
     numSubscribers = None\<rparr>"

definition narrow_tracks :: tracks where
  "narrow_tracks = [(''video'', narrow_track)]"

definition ini_narrow_msg :: message where
  "ini_narrow_msg =
     \<lparr>type_m = ''muxersendini'',
      config_m = \<lparr>urlHostPort = Some ''https://localhost:4433/moq'',
                  isSendingStats_cfg = Some False, moqTracks = Some narrow_tracks\<rparr>,
      seqId_m = None, chunk_type_m = [], pId_m = []\<rparr>"

definition video_msg :: "string \<Rightarrow> string \<Rightarrow> int \<Rightarrow> message" where
  "video_msg pid ct sq =
     \<lparr>type_m = ''video'', config_m = no_config, seqId_m = Some sq, chunk_type_m = ct,
      pId_m = pid\<rparr>"

definition narrow_ready :: sender where
  "narrow_ready =
     subscription_body (sub_msg ''secret'')
       (on_muxersendini_resume quiet (onmessage quiet ini_narrow_msg sender_init))"

definition narrow_send :: "string \<Rightarrow> int \<Rightarrow> pendingSend" where
  "narrow_send pid sq =
     \<lparr>p_packet = \<lparr>mediaType = ''video'', chunkType = ''key'', seqId = sq, pId = pid\<rparr>,
      p_trackId = 1, p_sendOrder = sq\<rparr>"

definition race_actions :: "action list" where
  "race_actions =
     [Message quiet ini_narrow_msg, InitResumed quiet, SubscribeRequest (sub_msg ''secret''),
      Message quiet (video_msg ''v1'' ''key'' 0), Message quiet (video_msg ''v2'' ''key'' 1),
      StreamOpened 0, StreamOpened 0]"

definition both_asked :: sender where
  "both_asked = narrow_ready\<lparr>moqPublisherState := [1 \<mapsto> createTrackState],
     awaiting := [narrow_send ''v1'' 0, narrow_send ''v2'' 1]\<rparr>"

definition both_sent :: sender where
  "both_sent =
     narrow_ready\<lparr>moqPublisherState := [1 \<mapsto> \<lparr>currentGroupSeq = 2, currentObjectSeq = 1\<rparr>],
       written := [video_object 1 0 0, video_object 2 0 1],
       inFlightRequests := (initInflightReqData narrow_tracks)(''video'' \<mapsto>
          [(''v1'', Promise ''v1''), (''v2'', Promise ''v2'')]),
       closing := [narrow_send ''v1'' 0, narrow_send ''v2'' 1],
       toMain := toMain narrow_ready @ [Debug ''Sending MOQT'', Debug ''Sending MOQT'']\<rparr>"

text \<open>
  A publisher whose \<^verbatim>\<open>data\<close> track and video track are configured with the same id, each
  with one subscriber; a data chunk, a video key chunk and a second data chunk, sent one
  after the other.
\<close>

definition shared_tracks :: tracks where
  "shared_tracks =
     [(''data'', \<lparr>id_t = 0, namespace = Some ''vc'', name_t = Some ''data0'',
                 authInfo = Some ''secret'', isHipri = False, maxInFlightRequests = 10,
                 numSubscribers = None\<rparr>),
      (''video'', \<lparr>id_t = 0, namespace = Some ''vc'', name_t = Some ''video0'',
                  authInfo = Some ''secret'', isHipri = False, maxInFlightRequests = 10,
                  numSubscribers = None\<rparr>)]"

definition ini_shared_msg :: message where
  "ini_shared_msg =
     \<lparr>type_m = ''muxersendini'',
      config_m = \<lparr>urlHostPort = Some ''https://localhost:4433/moq'',
                  isSendingStats_cfg = Some False, moqTracks = Some shared_tracks\<rparr>,
      seqId_m = None, chunk_type_m = [], pId_m = []\<rparr>"

definition sub_data :: subscribe where
  "sub_data = \<lparr>sub_namespace = ''vc'', sub_trackName = ''data0'', sub_authInfo = Some ''secret''\<rparr>"

definition shared_ready :: sender where
  "shared_ready =
     subscription_body (sub_msg ''secret'')
       (subscription_body sub_data
          (on_muxersendini_resume quiet (onmessage quiet ini_shared_msg sender_init)))"

definition shared_send :: "string \<Rightarrow> string \<Rightarrow> int \<Rightarrow> pendingSend" where
  "shared_send mt pid sq =
     \<lparr>p_packet = \<lparr>mediaType = mt, chunkType = ''key'', seqId = sq, pId = pid\<rparr>,
      p_trackId = 0, p_sendOrder = sq\<rparr>"

definition shared_object :: "string \<Rightarrow> nat \<Rightarrow> int \<Rightarrow> moqObject" where
  "shared_object mt g sq =
     \<lparr>o_mediaType = mt, o_trackId = 0, groupSeq = g, objSeq = 0, sendOrder = sq\<rparr>"

definition shared_actions :: "action list" where
  "shared_actions =
     [Message quiet ini_shared_msg, InitResumed quiet,
      SubscribeRequest sub_data, SubscribeRequest (sub_msg ''secret''),
      Message quiet (data_msg ''d1'' ''delta'' 0), StreamOpened 0,
      Message quiet (video_msg ''v1'' ''key'' 1), StreamOpened 0,
      Message quiet (data_msg ''d2'' ''delta'' 2), StreamOpened 0]"

definition shared_one :: sender where
  "shared_one =
     shared_ready\<lparr>moqPublisherState := [0 \<mapsto> \<lparr>currentGroupSeq = 1, currentObjectSeq = 1\<rparr>],
       written := [shared_object ''data'' 1 0],
       inFlightRequests := (initInflightReqData shared_tracks)(''data'' \<mapsto>
          [(''d1'', Promise ''d1'')]),
       closing := [shared_send ''data'' ''d1'' 0],
       toMain := toMain shared_ready @ [Debug ''Sending MOQT'']\<rparr>"

definition shared_two :: sender where
  "shared_two =
     shared_one\<lparr>moqPublisherState := [0 \<mapsto> \<lparr>currentGroupSeq = 2, currentObjectSeq = 1\<rparr>],
       written := [shared_object ''data'' 1 0, shared_object ''video'' 2 1],
       inFlightRequests := (inFlightRequests shared_one)(''video'' \<mapsto>
          [(''v1'', Promise ''v1'')]),
       closing := [shared_send ''data'' ''d1'' 0, shared_send ''video'' ''v1'' 1],
       toMain := toMain shared_ready @ [Debug ''Sending MOQT'', Debug ''Sending MOQT'']\<rparr>"

definition shared_three :: sender where
  "shared_three =
     shared_two\<lparr>moqPublisherState := [0 \<mapsto> \<lparr>currentGroupSeq = 3, currentObjectSeq = 1\<rparr>],
       written := [shared_object ''data'' 1 0, shared_object ''video'' 2 1,
                   shared_object ''data'' 3 2],
       inFlightRequests := (inFlightRequests shared_two)(''data'' \<mapsto>
          [(''d1'', Promise ''d1''), (''d2'', Promise ''d2'')]),
       closing := [shared_send ''data'' ''d1'' 0, shared_send ''video'' ''v1'' 1,
                   shared_send ''data'' ''d2'' 2],
       toMain := toMain shared_ready @
         [Debug ''Sending MOQT'', Debug ''Sending MOQT'', Debug ''Sending MOQT'']\<rparr>"

text \<open>
  A \<^verbatim>\<open>stop\<close> message that arrives while the init handler is suspended, and the rest of
  the init after it.
\<close>

definition stop_during_init :: "action list" where
  "stop_during_init = [Message quiet ini_msg, Message quiet stop_msg, InitResumed quiet]"

section \<open>Send order: rounding\<close>

lemma bit_length_bounds:
  "2 ^ k \<le> m \<Longrightarrow> m < 2 ^ Suc k \<Longrightarrow> bit_length m = Suc k"
proof (induction k arbitrary: m)
  case 0
  then have "m = 1" by simp
  then show ?case by (simp add: bit_length.simps)
next
  case (Suc k)
  have "2 ^ k \<le> m div 2" using Suc.prems by simp
  moreover have "m div 2 < 2 ^ Suc k" using Suc.prems by simp
  ultimately have "bit_length (m div 2) = Suc k" by (rule Suc.IH)
  moreover have "m \<noteq> 0" using Suc.prems by auto
  ultimately show ?case by (subst bit_length.simps) simp
qed

text \<open>Below \<open>2^53\<close> nothing is rounded.\<close>

lemma round53_exact:
  assumes "m < 2 ^ 53"
  shows "round53 m = m"
proof (cases "m = 0")
  case True
  then show ?thesis by (simp add: round53_def bit_length.simps)
next
  case False
  have "bit_length m \<le> 53"
  proof (rule ccontr)
    assume "\<not> bit_length m \<le> 53"
    then have big: "54 \<le> bit_length m" by simp
    have "\<And>k n. k \<le> bit_length n \<Longrightarrow> k \<noteq> 0 \<Longrightarrow> 2 ^ (k - 1) \<le> n"
    proof -
      fix k n show "k \<le> bit_length n \<Longrightarrow> k \<noteq> 0 \<Longrightarrow> 2 ^ (k - 1) \<le> n"
      proof (induction k arbitrary: n)
        case 0
        then show ?case by simp
      next
        case (Suc k)
        show ?case
        proof (cases "k = 0")
          case True
          with Suc.prems show ?thesis
            by (cases "n = 0") (simp_all add: bit_length.simps)
        next
          case False
          have "n \<noteq> 0"
          proof
            assume "n = 0"
            then have "bit_length n = 0" by (simp add: bit_length.simps)
            with Suc.prems show False by simp
          qed
          then have "k \<le> bit_length (n div 2)"
            using Suc.prems by (subst (asm) bit_length.simps) simp
          then have "2 ^ (k - 1) \<le> n div 2" using False by (rule Suc.IH)
          then have "2 * 2 ^ (k - 1) \<le> n" by simp
          then show ?thesis using False by (cases k) simp_all
        qed
      qed
    qed
    from this [OF big] have "2 ^ 53 \<le> m" by simp
    with assms show False by simp
  qed
  then show ?thesis by (simp add: round53_def)
qed

text \<open>
  Between \<open>2^53\<close> and \<open>2^54\<close> halves (values between \<open>2^52\<close> and \<open>2^53\<close>) the unit is
  two halves: an odd number of halves is a tie and goes to the even neighbour.
\<close>

lemma round53_odd_halves:
  assumes "2 ^ 53 \<le> m" and "m < 2 ^ 54" and "odd m"
  shows "round53 m = (if even (m div 2) then m - 1 else m + 1)"
proof -
  have bl: "bit_length m = 54"
    using bit_length_bounds [of 53 m] assms by simp
  have r: "m mod 2 = 1" using \<open>odd m\<close> by (simp add: odd_iff_mod_2_eq_one)
  have m: "m = 2 * (m div 2) + 1" using r by presburger
  show ?thesis
  proof (cases "even (m div 2)")
    case True
    then have "round53 m = m div 2 * 2" by (simp add: round53_def bl r Let_def)
    then show ?thesis using True m by simp
  next
    case False
    then have "round53 m = (m div 2 + 1) * 2" by (simp add: round53_def bl r Let_def)
    then show ?thesis using False m by simp
  qed
qed

text \<open>
  The high-priority offset, exactly: \<open>2^52 - 1\<close> for \<open>seqId = 0\<close>, and for
  \<open>0 < seqId < 2^52\<close> the even one of \<open>2^52 + seqId - 1\<close> and \<open>2^52 + seqId\<close>.
\<close>

lemma Math_floor_add_half_MAX_SAFE:
  assumes "0 \<le> n" and "n < 2 ^ 52"
  shows "Math_floor_add_half n MAX_SAFE_INTEGER =
           (if n = 0 \<or> odd n then n + MAX_SAFE_INTEGER div 2
            else n + MAX_SAFE_INTEGER div 2 + 1)"
proof (cases "n = 0")
  case True
  have "round53 (2 ^ 53 - 1) = 2 ^ 53 - 1" by (rule round53_exact) simp
  then have "round53 (nat (2 ^ 53 - 1)) = 2 ^ 53 - 1" by simp
  with True show ?thesis by (simp add: Math_floor_add_half_def MAX_SAFE_INTEGER_def)
next
  case False
  define k where "k = nat n"
  have n: "n = int k" and k0: "0 < k" and kb: "k < 2 ^ 52"
    using assms False by (simp_all add: k_def)
  define m where "m = 2 * k + 2 ^ 53 - 1"
  have nat_m: "nat (2 * n + MAX_SAFE_INTEGER) = m"
    by (simp add: n m_def MAX_SAFE_INTEGER_def nat_add_distrib nat_diff_distrib nat_power_eq)
  have lo: "2 ^ 53 \<le> m" and hi: "m < 2 ^ 54" and od: "odd m"
    using k0 kb by (simp_all add: m_def)
  have half: "m div 2 = k + 2 ^ 52 - 1" using k0 by (simp add: m_def)
  have ev: "even (m div 2) \<longleftrightarrow> odd k" using k0 by (simp add: half)
  have r: "round53 m = (if odd k then m - 1 else m + 1)"
    using round53_odd_halves [OF lo hi od] ev by simp
  have m1: "(m - 1) div 2 = k + 2 ^ 52 - 1" and m2: "(m + 1) div 2 = k + 2 ^ 52"
    using k0 unfolding m_def by simp_all
  have "round53 m div 2 = (if odd k then k + 2 ^ 52 - 1 else k + 2 ^ 52)"
    using m1 m2 by (simp add: r)
  then have "int (round53 m div 2) = (if odd k then int k + 2 ^ 52 - 1 else int k + 2 ^ 52)"
    using k0 by (simp add: of_nat_diff)
  then have "int (round53 m div 2) = (if odd n then n + 2 ^ 52 - 1 else n + 2 ^ 52)"
    by (simp add: n)
  moreover have "Math_floor_add_half n MAX_SAFE_INTEGER = int (round53 m div 2)"
    by (simp only: Math_floor_add_half_def nat_m)
  ultimately show ?thesis
    using False by (simp add: MAX_SAFE_INTEGER_def)
qed

section \<open>Send order: the claims\<close>

lemma example_tracks_lookup:
  "map_of example_tracks ''audio'' = Some audio_track"
  "map_of example_tracks ''video'' = Some video_track"
  by (simp_all add: example_tracks_def)

text \<open>
  C3 (as the code has it). A negative \<open>seqId\<close> gives \<^verbatim>\<open>Number.MAX_SAFE_INTEGER\<close>,
  that is \<open>2^53 - 1\<close>, not \<open>U64_MAX\<close>. On a high-priority track a \<open>seqId\<close> that is
  zero or odd (and below \<open>2^52\<close>) gives \<open>seqId + floor(MAX_SAFE/2)\<close>. On any other track
  a non-negative \<open>seqId\<close> is returned as it is.
\<close>

theorem moqCalculateSendOrder_cases:
  "(seqId p < 0 \<longrightarrow> moqCalculateSendOrder trs p = Inr MAX_SAFE_INTEGER) \<and>
   (0 \<le> seqId p \<and> seqId p < 2 ^ 52 \<and> (seqId p = 0 \<or> odd (seqId p)) \<and>
      map_of trs (mediaType p) = Some t \<and> isHipri t \<longrightarrow>
      moqCalculateSendOrder trs p = Inr (seqId p + MAX_SAFE_INTEGER div 2)) \<and>
   (0 \<le> seqId p \<and> map_of trs (mediaType p) = Some t \<and> \<not> isHipri t \<longrightarrow>
      moqCalculateSendOrder trs p = Inr (seqId p))"
proof (intro conjI impI)
  assume "seqId p < 0"
  then show "moqCalculateSendOrder trs p = Inr MAX_SAFE_INTEGER"
    by (simp add: moqCalculateSendOrder_def)
next
  assume a: "0 \<le> seqId p \<and> seqId p < 2 ^ 52 \<and> (seqId p = 0 \<or> odd (seqId p)) \<and>
      map_of trs (mediaType p) = Some t \<and> isHipri t"
  then have "Math_floor_add_half (seqId p) MAX_SAFE_INTEGER = seqId p + MAX_SAFE_INTEGER div 2"
    using Math_floor_add_half_MAX_SAFE [of "seqId p"] by auto
  with a show "moqCalculateSendOrder trs p = Inr (seqId p + MAX_SAFE_INTEGER div 2)"
    by (simp add: moqCalculateSendOrder_def)
next
  assume "0 \<le> seqId p \<and> map_of trs (mediaType p) = Some t \<and> \<not> isHipri t"
  then show "moqCalculateSendOrder trs p = Inr (seqId p)"
    by (simp add: moqCalculateSendOrder_def)
qed

theorem moqCalculateSendOrder_cases_witness:
  "moqCalculateSendOrder example_tracks (example_packet ''video'' ''key'' (- 1)) =
     Inr 9007199254740991 \<and>
   moqCalculateSendOrder example_tracks (example_packet ''audio'' ''delta'' 7) =
     Inr 4503599627370502 \<and>
   moqCalculateSendOrder example_tracks (example_packet ''video'' ''delta'' 7) = Inr 7"
  using moqCalculateSendOrder_cases
          [of "example_packet ''video'' ''key'' (- 1)" example_tracks video_track]
        moqCalculateSendOrder_cases
          [of "example_packet ''audio'' ''delta'' 7" example_tracks audio_track]
        moqCalculateSendOrder_cases
          [of "example_packet ''video'' ''delta'' 7" example_tracks video_track]
  by (simp add: example_packet_def example_tracks_lookup audio_track_def video_track_def
        MAX_SAFE_INTEGER_def)

text \<open>
  C3 as the specification states it fails twice: \<open>seqId = -1\<close> gives \<open>2^53 - 1\<close>
  where the specification says \<open>U64_MAX\<close>, and on the high-priority audio track
  \<open>seqId = 2\<close> gives \<open>2^52 + 2\<close> where the specification says \<open>2^52 + 1\<close>.
\<close>

theorem moqCalculateSendOrder_spec_counterexample:
  "moqCalculateSendOrder example_tracks (example_packet ''video'' ''key'' (- 1)) \<noteq>
     Inr (spec_sendOrder (isHipri video_track) (- 1)) \<and>
   moqCalculateSendOrder example_tracks (example_packet ''audio'' ''delta'' 2) \<noteq>
     Inr (spec_sendOrder (isHipri audio_track) 2)"
  using Math_floor_add_half_MAX_SAFE [of 2]
  by (simp add: moqCalculateSendOrder_def example_packet_def example_tracks_lookup
        audio_track_def video_track_def spec_sendOrder_def U64_MAX_def MAX_SAFE_INTEGER_def)

text \<open>
  C4 (the code at the failing input). On the high-priority audio track the chunks with
  \<open>seqId = 2\<close> and \<open>seqId = 3\<close> get the same send order \<open>2^52 + 2\<close>: the exact sums
  \<open>2^52 + 1.5\<close> and \<open>2^52 + 2.5\<close> are both ties between neighbouring binary64 values
  and both round to the even one. The newer chunk does not out-rank the older one.
\<close>

theorem moqCalculateSendOrder_hipri_collision:
  "moqCalculateSendOrder example_tracks (example_packet ''audio'' ''delta'' 2) =
     Inr 4503599627370498 \<and>
   moqCalculateSendOrder example_tracks (example_packet ''audio'' ''delta'' 3) =
     Inr 4503599627370498"
  using Math_floor_add_half_MAX_SAFE [of 2] Math_floor_add_half_MAX_SAFE [of 3]
  by (simp add: moqCalculateSendOrder_def example_packet_def example_tracks_lookup
        audio_track_def MAX_SAFE_INTEGER_def)

section \<open>Worker state\<close>

lemmas example_defs =
  subscribed_def running_def two_tracks_def no_config_def chunk_msg_def stop_msg_def quiet_def
  audio_track_def video_track_def ini_msg_d_def stop_msg_d_def peer_d_def downloader_init_def

lemma workerState_emit [simp]:
  "workerState (emit evs s) = workerState s" "initialising (emit evs s) = initialising s"
  by (simp_all add: emit_def)

lemma workerState_addToInflight:
  "addToInflight mt p s = Inr s' \<Longrightarrow>
     workerState s' = workerState s \<and> initialising s' = initialising s"
  by (auto simp: addToInflight_def split: option.splits if_splits)

lemma workerState_removeFromInflight:
  "removeFromInflight mt i s = Inr s' \<Longrightarrow>
     workerState s' = workerState s \<and> initialising s' = initialising s"
  by (auto simp: removeFromInflight_def split: option.splits if_splits)

lemma workerState_resume:
  "createSendPromise_resume pd s = (r, s') \<Longrightarrow>
     workerState s' = workerState s \<and> initialising s' = initialising s"
  by (auto simp: createSendPromise_resume_def Let_def split: option.splits sum.splits
      dest: workerState_addToInflight)

lemma workerState_stream_opened [simp]:
  "workerState (stream_opened n s) = workerState s"
  "initialising (stream_opened n s) = initialising s"
proof -
  have "workerState (stream_opened n s) = workerState s \<and>
      initialising (stream_opened n s) = initialising s"
  proof (cases "n < length (awaiting s)")
    case False
    then show ?thesis by (simp add: stream_opened_def)
  next
    case True
    obtain r s' where r: "createSendPromise_resume (awaiting s ! n)
        (s\<lparr>awaiting := remove_nth n (awaiting s)\<rparr>) = (r, s')"
      by (cases "createSendPromise_resume (awaiting s ! n)
                   (s\<lparr>awaiting := remove_nth n (awaiting s)\<rparr>)")
    from workerState_resume [OF r]
    have "workerState s' = workerState s \<and> initialising s' = initialising s" by simp
    with True r show ?thesis
      by (cases r) (simp_all add: stream_opened_def Let_def send_failed_def)
  qed
  then show "workerState (stream_opened n s) = workerState s"
    and "initialising (stream_opened n s) = initialising s" by simp_all
qed

lemma workerState_stream_rejected [simp]:
  "workerState (stream_rejected n m s) = workerState s"
  "initialising (stream_rejected n m s) = initialising s"
  by (simp_all add: stream_rejected_def send_failed_def)

lemma workerState_close_settled [simp]:
  "workerState (close_settled n outcome s) = workerState s"
  "initialising (close_settled n outcome s) = initialising s"
  by (auto simp: close_settled_def Let_def send_failed_def split: sum.splits option.splits
      dest: workerState_removeFromInflight)

lemma workerState_subscription_body [simp]:
  "workerState (subscription_body sub s) = workerState s"
  "initialising (subscription_body sub s) = initialising s"
  by (simp_all add: subscription_body_def split: option.splits prod.splits)









section \<open>In-flight requests: all pending handles\<close>

lemmas send_defs =
  run_def onmessage_def on_chunk_def report_stats_def send_outcome_def message_chunkData_def
  sendChunkToTransport_def createRequest_def createRequest_packet_def
  createSendPromise_def createSendPromise_resume_def stream_opened_def addToInflight_def
  emit_def remove_nth_def LocPackager_SetData_def RawPackager_SetData_def
  moqCalculateSendOrder_def createTrackState_def in_object_def Object_prototype_def

text \<open>
  C9 (the code at the failing input). Two tracks, one audio chunk sent and its close
  pending: \<^verbatim>\<open>getAllInflightRequestsArray\<close> returns the handle twice, because the
  second iteration concatenates the accumulator with itself. The union holds it once.
\<close>

theorem getAllInflightRequestsArray_duplicates:
  "getAllInflightRequestsArray
     (run [Message quiet (chunk_msg ''audio'' ''key'' (- 1)), StreamOpened 0] (running two_tracks)) =
     Inr [Promise ''audio-key'', Promise ''audio-key''] \<and>
   spec_union_inflight
     (run [Message quiet (chunk_msg ''audio'' ''key'' (- 1)), StreamOpened 0] (running two_tracks)) =
     [Promise ''audio-key'']"
  by (simp add: example_defs send_defs Let_def getAllInflightRequestsArray_def
      spec_union_inflight_def)

section \<open>Subscription requests\<close>

lemma find_update_first:
  "find P xs = Some x \<Longrightarrow>
     \<exists>pre post. xs = pre @ x # post \<and> list_all (\<lambda>y. \<not> P y) pre \<and>
       update_first P f xs = pre @ f x # post"
proof (induction xs)
  case Nil
  then show ?case by simp
next
  case (Cons y ys)
  show ?case
  proof (cases "P y")
    case True
    with Cons.prems have "y = x" by simp
    with True have "y # ys = [] @ x # ys \<and> list_all (\<lambda>y. \<not> P y) [] \<and>
        update_first P f (y # ys) = [] @ f x # ys" by simp
    then show ?thesis by blast
  next
    case False
    with Cons.prems have "find P ys = Some x" by simp
    from Cons.IH [OF this] obtain pre post where
      "ys = pre @ x # post" "list_all (\<lambda>y. \<not> P y) pre" "update_first P f ys = pre @ f x # post"
      by blast
    with False have "y # ys = (y # pre) @ x # post \<and> list_all (\<lambda>y. \<not> P y) (y # pre) \<and>
        update_first P f (y # ys) = (y # pre) @ f x # post" by simp
    then show ?thesis by blast
  qed
qed

lemma find_append_first:
  "list_all (\<lambda>y. \<not> P y) pre \<Longrightarrow> P x \<Longrightarrow> find P (pre @ x # post) = Some x"
  by (induction pre) simp_all

lemma subscription_body_mismatch:
  assumes "getTrack (tracks s) (sub_namespace sub) (sub_trackName sub) = Some (k, t)"
    and "authInfo t \<noteq> sub_authInfo sub"
  shows "subscription_body sub s = emit [Err ''Invalid subscribe authInfo''] s"
  using assms by (simp add: subscription_body_def)

lemma find_holds: "find P xs = Some x \<Longrightarrow> P x"
  by (induction xs) (auto split: if_splits)

lemma getTrack_SomeD:
  "getTrack trs ns tn = Some (k, t) \<Longrightarrow> namespace t = Some ns \<and> name_t t = Some tn"
  unfolding getTrack_def by (drule find_holds) simp

lemma subscription_body_match:
  assumes g: "getTrack (tracks s) (sub_namespace sub) (sub_trackName sub) = Some (k, t)"
    and a: "authInfo t = sub_authInfo sub"
  shows "\<exists>pre post.
           tracks s = pre @ (k, t) # post \<and>
           tracks (subscription_body sub s) = pre @ (k, add_subscriber t) # post \<and>
           getTrack (tracks (subscription_body sub s)) (sub_namespace sub) (sub_trackName sub) =
             Some (k, add_subscriber t)"
    and "controlOut (subscription_body sub s) =
           controlOut s @ [SubscribeResponse (sub_namespace sub) (sub_trackName sub) (id_t t) 0]"
    and "toMain (subscription_body sub s) = toMain s @ [Info ''New subscriber for track'']"
proof -
  let ?P = "\<lambda>kt. namespace (snd kt) = Some (sub_namespace sub) \<and>
                  name_t (snd kt) = Some (sub_trackName sub)"
  let ?f = "\<lambda>kt. (fst kt, add_subscriber (snd kt))"
  from g have f: "find ?P (tracks s) = Some (k, t)" by (simp add: getTrack_def)
  from find_update_first [OF f, of ?f] obtain pre post where
    pp: "tracks s = pre @ (k, t) # post" "list_all (\<lambda>y. \<not> ?P y) pre"
        "update_first ?P ?f (tracks s) = pre @ (k, add_subscriber t) # post"
    by auto
  have tr: "tracks (subscription_body sub s) = pre @ (k, add_subscriber t) # post"
    using g a pp(3) by (simp add: subscription_body_def emit_def)
  have "?P (k, add_subscriber t)"
    using getTrack_SomeD [OF g] by (simp add: add_subscriber_def)
  from find_append_first [OF pp(2) this]
  have "getTrack (pre @ (k, add_subscriber t) # post) (sub_namespace sub) (sub_trackName sub) =
          Some (k, add_subscriber t)"
    by (simp add: getTrack_def)
  with pp(1) tr show "\<exists>pre post.
           tracks s = pre @ (k, t) # post \<and>
           tracks (subscription_body sub s) = pre @ (k, add_subscriber t) # post \<and>
           getTrack (tracks (subscription_body sub s)) (sub_namespace sub) (sub_trackName sub) =
             Some (k, add_subscriber t)"
    by auto
  show "controlOut (subscription_body sub s) =
           controlOut s @ [SubscribeResponse (sub_namespace sub) (sub_trackName sub) (id_t t) 0]"
    using g a by (simp add: subscription_body_def emit_def)
  show "toMain (subscription_body sub s) = toMain s @ [Info ''New subscriber for track'']"
    using g a by (simp add: subscription_body_def emit_def)
qed

lemma startLoopSubscriptionsLoop_fold:
  "workerState s = Running \<Longrightarrow> startLoopSubscriptionsLoop subs s = fold subscription_body subs s"
  by (induction subs arbitrary: s) simp_all

text \<open>
  C6. The loop applies its body to every request it reads. For a request whose
  namespace and track name name a configured track: when the request's authInfo differs
  from the track's, the body only posts an error event (the tracks, and with them every
  \<^verbatim>\<open>numSubscribers\<close>, and the control stream are as before); when it is equal, the
  track found gets \<^verbatim>\<open>numSubscribers\<close> incremented, or set to 1 when it had none, no
  other track changes, and a SUBSCRIBE_RESPONSE with the request's namespace and track
  name, the track's id and expires 0 is written.
\<close>

theorem subscription_auth_gate:
  "getTrack (tracks s) (sub_namespace sub) (sub_trackName sub) = Some (k, t) \<Longrightarrow>
   (workerState s = Running \<longrightarrow>
      startLoopSubscriptionsLoop (sub # subs) s =
        startLoopSubscriptionsLoop subs (subscription_body sub s)) \<and>
   (authInfo t \<noteq> sub_authInfo sub \<longrightarrow>
      subscription_body sub s = emit [Err ''Invalid subscribe authInfo''] s \<and>
      tracks (subscription_body sub s) = tracks s \<and>
      controlOut (subscription_body sub s) = controlOut s) \<and>
   (authInfo t = sub_authInfo sub \<longrightarrow>
      (\<exists>pre post. tracks s = pre @ (k, t) # post \<and>
         tracks (subscription_body sub s) = pre @ (k, add_subscriber t) # post) \<and>
      getTrack (tracks (subscription_body sub s)) (sub_namespace sub) (sub_trackName sub) =
        Some (k, add_subscriber t) \<and>
      add_subscriber t =
        t\<lparr>numSubscribers := Some (case numSubscribers t of None \<Rightarrow> 1 | Some n \<Rightarrow> n + 1)\<rparr> \<and>
      controlOut (subscription_body sub s) =
        controlOut s @ [SubscribeResponse (sub_namespace sub) (sub_trackName sub) (id_t t) 0])"
proof (intro conjI impI)
  assume g: "getTrack (tracks s) (sub_namespace sub) (sub_trackName sub) = Some (k, t)"
  {
    assume "workerState s = Running"
    then show "startLoopSubscriptionsLoop (sub # subs) s =
        startLoopSubscriptionsLoop subs (subscription_body sub s)" by simp
  }
  {
    assume ne: "authInfo t \<noteq> sub_authInfo sub"
    from subscription_body_mismatch [OF g ne]
    show "subscription_body sub s = emit [Err ''Invalid subscribe authInfo''] s" .
    then show "tracks (subscription_body sub s) = tracks s"
      and "controlOut (subscription_body sub s) = controlOut s"
      by (simp_all add: emit_def)
  }
  {
    assume a: "authInfo t = sub_authInfo sub"
    from subscription_body_match(1) [OF g a]
    show "\<exists>pre post. tracks s = pre @ (k, t) # post \<and>
         tracks (subscription_body sub s) = pre @ (k, add_subscriber t) # post"
      and "getTrack (tracks (subscription_body sub s)) (sub_namespace sub) (sub_trackName sub) =
        Some (k, add_subscriber t)"
      by blast+
    show "add_subscriber t =
        t\<lparr>numSubscribers := Some (case numSubscribers t of None \<Rightarrow> 1 | Some n \<Rightarrow> n + 1)\<rparr>"
      by (simp add: add_subscriber_def split: option.splits)
    from subscription_body_match(2) [OF g a]
    show "controlOut (subscription_body sub s) =
        controlOut s @ [SubscribeResponse (sub_namespace sub) (sub_trackName sub) (id_t t) 0]" .
  }
qed

theorem subscription_auth_gate_witness:
  "subscription_body (sub_msg ''wrong'') (running example_tracks) =
     emit [Err ''Invalid subscribe authInfo''] (running example_tracks) \<and>
   getTrack (tracks (subscription_body (sub_msg ''secret'') (running example_tracks)))
       ''vc'' ''video0'' =
     Some (''video'', video_track\<lparr>numSubscribers := Some 1\<rparr>) \<and>
   controlOut (subscription_body (sub_msg ''secret'') (running example_tracks)) =
     [SubscribeResponse ''vc'' ''video0'' 1 0] \<and>
   startLoopSubscriptionsLoop [sub_msg ''secret''] (running example_tracks) =
     subscription_body (sub_msg ''secret'') (running example_tracks)"
proof -
  have g: "getTrack (tracks (running example_tracks)) (sub_namespace (sub_msg a))
             (sub_trackName (sub_msg a)) = Some (''video'', video_track)" for a
    by (simp add: getTrack_def running_def example_tracks_def sub_msg_def audio_track_def
        video_track_def)
  have r: "workerState (running example_tracks) = Running"
    by (simp add: running_def)
  show ?thesis
    using subscription_auth_gate [OF g [of "''wrong''"], of "[]"]
      subscription_auth_gate [OF g [of "''secret''"], of "[]"] r
    by (simp add: sub_msg_def video_track_def running_def)
qed

section \<open>Session setup\<close>

lemma announce_loop_error:
  "announce_loop trs ann replies = (out, evs, Inl err) \<Longrightarrow>
     err = Error ''control stream closed'' \<or> err = Error ''expecting namespace''"
proof (induction trs ann replies arbitrary: out evs rule: announce_loop.induct)
  case (1 ann replies)
  then show ?case by simp
next
  case (2 trackType trackData rest ann replies)
  show ?case
  proof (cases "namespace trackData \<in> set ann")
    case True
    with "2.prems" "2.IH"(1) show ?thesis by simp
  next
    case False
    show ?thesis
    proof (cases replies)
      case Nil
      with False "2.prems" show ?thesis by simp
    next
      case (Cons r rs)
      show ?thesis
      proof (cases "namespace trackData = Some r")
        case ne: False
        with False Cons "2.prems" show ?thesis by simp
      next
        case True
        obtain out' evs' res' where
          rec: "announce_loop rest (ann @ [namespace trackData]) rs = (out', evs', res')"
          by (cases "announce_loop rest (ann @ [namespace trackData]) rs") auto
        with False Cons True "2.prems" have "res' = Inl err" by simp
        with rec "2.IH"(2) [OF False Cons _ ] True show ?thesis by simp
      qed
    qed
  qed
qed

lemma announce_loop_success:
  "announce_loop trs ann replies = (out, evs, Inr u) \<Longrightarrow>
     announced out = map Some (take (length (announced out)) replies) \<and>
     distinct (announced out) \<and>
     set (announced out) = set (map (\<lambda>kt. namespace (snd kt)) trs) - set ann"
proof (induction trs ann replies arbitrary: out evs rule: announce_loop.induct)
  case (1 ann replies)
  then show ?case by simp
next
  case (2 trackType trackData rest ann replies)
  show ?case
  proof (cases "namespace trackData \<in> set ann")
    case True
    with "2.prems" have "announce_loop rest ann replies = (out, evs, Inr u)" by simp
    from "2.IH"(1) [OF True this] True show ?thesis by auto
  next
    case False
    show ?thesis
    proof (cases replies)
      case Nil
      with False "2.prems" show ?thesis by simp
    next
      case (Cons r rs)
      show ?thesis
      proof (cases "namespace trackData = Some r")
        case ne: False
        with False Cons "2.prems" show ?thesis by simp
      next
        case True
        obtain out' evs' res' where
          rec: "announce_loop rest (ann @ [namespace trackData]) rs = (out', evs', res')"
          by (cases "announce_loop rest (ann @ [namespace trackData]) rs") auto
        with False Cons True "2.prems" have
          res: "res' = Inr u" and
          out: "out = Announce (namespace trackData) (authInfo trackData) # out'"
          by simp_all
        from "2.IH"(2) [OF False Cons _ rec [unfolded res]] True
        have ih: "announced out' = map Some (take (length (announced out')) rs)"
          "distinct (announced out')"
          "set (announced out') =
             set (map (\<lambda>kt. namespace (snd kt)) rest) - set (ann @ [namespace trackData])"
          by simp_all
        show ?thesis
          using ih False True by (auto simp: out Cons)
      qed
    qed
  qed
qed

lemma publisher_role_error_iff:
  "snd (snd (moqCreatePublisherSession trs role replies)) = Inl (Error ''role not supported'') \<longleftrightarrow>
     role \<noteq> MOQ_PARAMETER_ROLE_SUBSCRIBER \<and> role \<noteq> MOQ_PARAMETER_ROLE_BOTH"
proof (cases "role \<noteq> MOQ_PARAMETER_ROLE_SUBSCRIBER \<and> role \<noteq> MOQ_PARAMETER_ROLE_BOTH")
  case True
  then show ?thesis by (simp add: moqCreatePublisherSession_def)
next
  case False
  obtain out evs res where l: "announce_loop trs [] replies = (out, evs, res)"
    by (cases "announce_loop trs [] replies") auto
  have "res \<noteq> Inl (Error ''role not supported'')"
    using announce_loop_error [of trs "[]" replies out evs] l by (cases res) auto
  with False l show ?thesis by (auto simp: moqCreatePublisherSession_def)
qed

lemma subscribe_loop_error:
  "subscribe_loop trs replies = (out, evs, trs', Inl err) \<Longrightarrow>
     err = Error ''control stream closed'' \<or> err = Error ''expecting ''"
proof (induction trs replies arbitrary: out evs trs' rule: subscribe_loop.induct)
  case (1 replies)
  then show ?case by simp
next
  case (2 trackType trackData rest replies)
  show ?case
  proof (cases replies)
    case Nil
    with "2.prems" show ?thesis by simp
  next
    case (Cons r rs)
    show ?thesis
    proof (cases "namespace trackData \<noteq> Some (r_namespace r) \<or>
                  name_t trackData \<noteq> Some (r_trackName r)")
      case True
      with Cons "2.prems" show ?thesis by auto
    next
      case False
      obtain out' evs' trs'' res' where
        rec: "subscribe_loop rest rs = (out', evs', trs'', res')"
        by (cases "subscribe_loop rest rs") auto
      with False Cons "2.prems" have "res' = Inl err" by auto
      with rec "2.IH" [OF Cons False] show ?thesis by simp
    qed
  qed
qed

lemma subscriber_role_error_iff:
  "snd (snd (snd (moqCreateSubscriberSession trs role replies))) = Inl (Error ''role not supported'') \<longleftrightarrow>
     role \<noteq> MOQ_PARAMETER_ROLE_PUBLISHER \<and> role \<noteq> MOQ_PARAMETER_ROLE_BOTH"
proof (cases "role \<noteq> MOQ_PARAMETER_ROLE_PUBLISHER \<and> role \<noteq> MOQ_PARAMETER_ROLE_BOTH")
  case True
  then show ?thesis by (simp add: moqCreateSubscriberSession_def)
next
  case False
  obtain out evs trs' res where l: "subscribe_loop trs replies = (out, evs, trs', res)"
    by (cases "subscribe_loop trs replies") auto
  have "res \<noteq> Inl (Error ''role not supported'')"
    using subscribe_loop_error [of trs replies out evs trs'] l by (cases res) auto
  with False l show ?thesis by (auto simp: moqCreateSubscriberSession_def)
qed

lemma publisher_session_success:
  assumes "moqCreatePublisherSession trs role replies = (out, evs, Inr u)"
  shows "announced out = map Some (take (length (announced out)) replies) \<and>
     distinct (announced out) \<and>
     set (announced out) = set (map (\<lambda>kt. namespace (snd kt)) trs)"
proof -
  obtain out' evs' res where l: "announce_loop trs [] replies = (out', evs', res)"
    by (cases "announce_loop trs [] replies") auto
  from assms l have r: "res = Inr u" and o: "out = Setup MOQ_PARAMETER_ROLE_PUBLISHER # out'"
    by (auto simp: moqCreatePublisherSession_def split: if_splits)
  from announce_loop_success [OF l [unfolded r]] show ?thesis by (simp add: o)
qed

text \<open>Only the rest of an init brings the publisher to Running.\<close>

lemma on_muxersendini_resume_Running:
  assumes "workerState s \<noteq> Running"
    and "workerState (on_muxersendini_resume w s) = Running"
  shows "\<exists>out evs.
           moqCreatePublisherSession (tracks (on_muxersendini_resume w s)) (setup_role w)
             (announce_replies w) = (out, evs, Inr ())"
proof -
  obtain out evs res where
    l: "moqCreatePublisherSession (tracks s) (setup_role w) (announce_replies w) = (out, evs, res)"
    by (cases "moqCreatePublisherSession (tracks s) (setup_role w) (announce_replies w)") auto
  from assms l have "res = Inr () \<and> tracks (on_muxersendini_resume w s) = tracks s"
    by (auto simp: on_muxersendini_resume_def Let_def moqClose_def emit_def
        split: if_splits transport_outcome.splits sum.splits)
  with l show ?thesis by auto
qed

lemma on_muxersendini_workerState [simp]:
  "workerState (on_muxersendini cfg s) = workerState s"
  by (simp add: on_muxersendini_def Let_def moqResetState_def emit_def)

lemma onmessage_not_Running:
  assumes "workerState s \<noteq> Running"
  shows "workerState (onmessage w e s) \<noteq> Running"
  using assms
  by (auto simp: onmessage_def on_stop_def moqClose_def Let_def split: sum.splits)

lemma onmessage_d_ini_Running:
  assumes "type_d e = ''downloadersendini''" and "workerState_d d \<noteq> Running"
    and "workerState_d (onmessage_d w e d) = Running"
  shows "setup_role_d w = MOQ_PARAMETER_ROLE_PUBLISHER \<or> setup_role_d w = MOQ_PARAMETER_ROLE_BOTH"
proof (rule ccontr)
  assume bad: "\<not> ?thesis"
  have "workerState_d (on_downloadersendini w cfg d') \<noteq> Running"
    if "workerState_d d' \<noteq> Running" for cfg d'
    using that bad
    by (auto simp: on_downloadersendini_def Let_def emit_d_def moqCreateSubscriberSession_def
        split: if_splits transport_outcome.splits)
  with assms show False
    by (auto simp: onmessage_d_def Let_def split: if_splits)
qed

text \<open>
  C8. \<^verbatim>\<open>moqCreatePublisherSession\<close> throws its role error exactly when the role of
  SETUP_OK is neither SUBSCRIBER nor BOTH, \<^verbatim>\<open>moqCreateSubscriberSession\<close> exactly when
  it is neither PUBLISHER nor BOTH. When the publisher session is set up without an
  error, every ANNOUNCE_OK read named the namespace just announced, and the namespaces
  announced are the namespaces of the configured tracks, each once. An init message
  brings a worker to Running only if the role was accepted and, for the publisher, the
  session was set up without an error: the publisher's listener alone never reaches
  Running, and the rest of its init handler does so only then.
\<close>

theorem handshake_roles_and_announces:
  "(snd (snd (moqCreatePublisherSession trs role replies)) = Inl (Error ''role not supported'') \<longleftrightarrow>
      role \<noteq> MOQ_PARAMETER_ROLE_SUBSCRIBER \<and> role \<noteq> MOQ_PARAMETER_ROLE_BOTH) \<and>
   (snd (snd (snd (moqCreateSubscriberSession trs role sreplies))) =
        Inl (Error ''role not supported'') \<longleftrightarrow>
      role \<noteq> MOQ_PARAMETER_ROLE_PUBLISHER \<and> role \<noteq> MOQ_PARAMETER_ROLE_BOTH) \<and>
   (moqCreatePublisherSession trs role replies = (out, evs, Inr ()) \<longrightarrow>
      announced out = map Some (take (length (announced out)) replies) \<and>
      distinct (announced out) \<and>
      set (announced out) = set (map (\<lambda>kt. namespace (snd kt)) trs)) \<and>
   (workerState s \<noteq> Running \<longrightarrow> workerState (onmessage w e s) \<noteq> Running) \<and>
   (workerState s \<noteq> Running \<and> workerState (on_muxersendini_resume w s) = Running \<longrightarrow>
      (setup_role w = MOQ_PARAMETER_ROLE_SUBSCRIBER \<or> setup_role w = MOQ_PARAMETER_ROLE_BOTH) \<and>
      (\<exists>out' evs'. moqCreatePublisherSession (tracks (on_muxersendini_resume w s)) (setup_role w)
                      (announce_replies w) = (out', evs', Inr ()))) \<and>
   (type_d ed = ''downloadersendini'' \<and> workerState_d d \<noteq> Running \<and>
      workerState_d (onmessage_d wd ed d) = Running \<longrightarrow>
      setup_role_d wd = MOQ_PARAMETER_ROLE_PUBLISHER \<or> setup_role_d wd = MOQ_PARAMETER_ROLE_BOTH)"
proof (intro conjI impI)
  show "snd (snd (moqCreatePublisherSession trs role replies)) = Inl (Error ''role not supported'') \<longleftrightarrow>
      role \<noteq> MOQ_PARAMETER_ROLE_SUBSCRIBER \<and> role \<noteq> MOQ_PARAMETER_ROLE_BOTH"
    by (rule publisher_role_error_iff)
  show "snd (snd (snd (moqCreateSubscriberSession trs role sreplies))) =
        Inl (Error ''role not supported'') \<longleftrightarrow>
      role \<noteq> MOQ_PARAMETER_ROLE_PUBLISHER \<and> role \<noteq> MOQ_PARAMETER_ROLE_BOTH"
    by (rule subscriber_role_error_iff)
  {
    assume ok: "moqCreatePublisherSession trs role replies = (out, evs, Inr ())"
    from publisher_session_success [OF ok]
    show "announced out = map Some (take (length (announced out)) replies)"
      and "distinct (announced out)"
      and "set (announced out) = set (map (\<lambda>kt. namespace (snd kt)) trs)"
      by simp_all
  }
  {
    assume "workerState s \<noteq> Running"
    then show "workerState (onmessage w e s) \<noteq> Running"
      by (rule onmessage_not_Running)
  }
  {
    assume a: "workerState s \<noteq> Running \<and> workerState (on_muxersendini_resume w s) = Running"
    from on_muxersendini_resume_Running [of s w] a
    show ex: "\<exists>out' evs'. moqCreatePublisherSession (tracks (on_muxersendini_resume w s))
                      (setup_role w) (announce_replies w) = (out', evs', Inr ())"
      by blast
    then obtain out' evs' where
      "moqCreatePublisherSession (tracks (on_muxersendini_resume w s)) (setup_role w)
         (announce_replies w) = (out', evs', Inr ())" by blast
    then have "snd (snd (moqCreatePublisherSession (tracks (on_muxersendini_resume w s))
        (setup_role w) (announce_replies w))) \<noteq> Inl (Error ''role not supported'')" by simp
    then show "setup_role w = MOQ_PARAMETER_ROLE_SUBSCRIBER \<or>
        setup_role w = MOQ_PARAMETER_ROLE_BOTH"
      unfolding publisher_role_error_iff by blast
  }
  {
    assume a: "type_d ed = ''downloadersendini'' \<and> workerState_d d \<noteq> Running \<and>
      workerState_d (onmessage_d wd ed d) = Running"
    with onmessage_d_ini_Running [of ed d wd]
    show "setup_role_d wd = MOQ_PARAMETER_ROLE_PUBLISHER \<or>
        setup_role_d wd = MOQ_PARAMETER_ROLE_BOTH" by blast
  }
qed

lemmas role_defs = MOQ_PARAMETER_ROLE_PUBLISHER_def MOQ_PARAMETER_ROLE_SUBSCRIBER_def
  MOQ_PARAMETER_ROLE_BOTH_def

lemma ok_session:
  "moqCreatePublisherSession two_tracks MOQ_PARAMETER_ROLE_SUBSCRIBER [''vc''] =
     ([Setup MOQ_PARAMETER_ROLE_PUBLISHER, Announce (Some ''vc'') (Some ''secret'')],
      [Info ''Received SETUP response'', Info ''Received ANNOUNCE response''], Inr ())"
  by (simp add: moqCreatePublisherSession_def example_defs role_defs)

lemma check_two_tracks: "checkTrackData two_tracks = []"
  by (simp add: checkTrackData_def example_defs)

lemma ini_asked:
  "onmessage quiet ini_msg sender_init =
     sender_init\<lparr>workerState := Instantiated, isSendingStats := False, tracks := two_tracks,
       initialising := 1\<rparr>"
  by (simp add: onmessage_def on_muxersendini_def sender_init_def ini_msg_def Let_def
      check_two_tracks moqResetState_def)

lemma ini_running:
  "workerState (on_muxersendini_resume quiet (onmessage quiet ini_msg sender_init)) = Running"
  unfolding ini_asked
  by (simp add: on_muxersendini_resume_def sender_init_def quiet_def Let_def
      ok_session moqClose_def emit_def)

lemma ini_running_d: "workerState_d (onmessage_d peer_d ini_msg_d downloader_init) = Running"
  by (simp add: onmessage_d_def on_downloadersendini_def moqCreateSubscriberSession_def
      checkTrackData_def emit_d_def example_defs Let_def role_defs)

theorem handshake_roles_and_announces_witness:
  "snd (snd (moqCreatePublisherSession two_tracks MOQ_PARAMETER_ROLE_PUBLISHER [''vc''])) =
     Inl (Error ''role not supported'') \<and>
   snd (snd (snd (moqCreateSubscriberSession [(''video'', video_track)]
      MOQ_PARAMETER_ROLE_SUBSCRIBER (subscribe_replies peer_d)))) =
     Inl (Error ''role not supported'') \<and>
   announced (fst (moqCreatePublisherSession two_tracks MOQ_PARAMETER_ROLE_SUBSCRIBER [''vc''])) =
     [Some ''vc''] \<and>
   workerState (onmessage quiet ini_msg sender_init) \<noteq> Running \<and>
   workerState (on_muxersendini_resume quiet (onmessage quiet ini_msg sender_init)) = Running \<and>
   (\<exists>out evs. moqCreatePublisherSession
      (tracks (on_muxersendini_resume quiet (onmessage quiet ini_msg sender_init)))
      (setup_role quiet) (announce_replies quiet) = (out, evs, Inr ())) \<and>
   workerState_d (onmessage_d peer_d ini_msg_d downloader_init) = Running \<and>
   setup_role_d peer_d = MOQ_PARAMETER_ROLE_PUBLISHER"
proof -
  have i: "workerState sender_init \<noteq> Running" by (simp add: sender_init_def)
  have a: "workerState (onmessage quiet ini_msg sender_init) \<noteq> Running \<and>
      workerState (on_muxersendini_resume quiet (onmessage quiet ini_msg sender_init)) = Running"
    by (simp add: ini_running) (simp add: ini_asked)
  have b: "type_d ini_msg_d = ''downloadersendini'' \<and> workerState_d downloader_init \<noteq> Running \<and>
      workerState_d (onmessage_d peer_d ini_msg_d downloader_init) = Running"
    by (simp add: ini_running_d) (simp add: ini_msg_d_def downloader_init_def)
  note t0 = handshake_roles_and_announces
      [of two_tracks MOQ_PARAMETER_ROLE_PUBLISHER "[''vc'']" "subscribe_replies peer_d"
        "[]" "[]" sender_init quiet ini_msg ini_msg_d downloader_init peer_d]
  note t1 = handshake_roles_and_announces
      [of two_tracks MOQ_PARAMETER_ROLE_PUBLISHER "[''vc'']" "subscribe_replies peer_d"
        "[]" "[]" "onmessage quiet ini_msg sender_init" quiet ini_msg ini_msg_d downloader_init
        peer_d]
  note t2 = handshake_roles_and_announces
      [of "[(''video'', video_track)]" MOQ_PARAMETER_ROLE_SUBSCRIBER "[''vc'']"
        "subscribe_replies peer_d" "[]" "[]" "onmessage quiet ini_msg sender_init" quiet ini_msg
        ini_msg_d downloader_init peer_d]
  note t3 = handshake_roles_and_announces
      [of two_tracks MOQ_PARAMETER_ROLE_SUBSCRIBER "[''vc'']" "subscribe_replies peer_d"
        "[Setup MOQ_PARAMETER_ROLE_PUBLISHER, Announce (Some ''vc'') (Some ''secret'')]"
        "[Info ''Received SETUP response'', Info ''Received ANNOUNCE response'']"
        "onmessage quiet ini_msg sender_init" quiet ini_msg ini_msg_d downloader_init peer_d]
  have c0: "workerState (onmessage quiet ini_msg sender_init) \<noteq> Running"
    using t0 i by blast
  have c1: "snd (snd (moqCreatePublisherSession two_tracks MOQ_PARAMETER_ROLE_PUBLISHER [''vc''])) =
     Inl (Error ''role not supported'')"
    using t1 by (simp add: role_defs)
  have c2: "snd (snd (snd (moqCreateSubscriberSession [(''video'', video_track)]
      MOQ_PARAMETER_ROLE_SUBSCRIBER (subscribe_replies peer_d)))) =
     Inl (Error ''role not supported'')"
    using t2 by (simp add: role_defs)
  have c3: "announced (fst (moqCreatePublisherSession two_tracks MOQ_PARAMETER_ROLE_SUBSCRIBER [''vc''])) =
     [Some ''vc'']"
    using t3 ok_session by simp
  have c4: "\<exists>out evs. moqCreatePublisherSession
      (tracks (on_muxersendini_resume quiet (onmessage quiet ini_msg sender_init)))
      (setup_role quiet) (announce_replies quiet) = (out, evs, Inr ())"
    using t3 a by blast
  have c5: "setup_role_d peer_d = MOQ_PARAMETER_ROLE_PUBLISHER"
    using t3 b by (simp add: peer_d_def role_defs)
  from c0 c1 c2 c3 c4 c5 a b show ?thesis by simp
qed

section \<open>Sending a chunk: what each step changes\<close>

lemma emit_fields [simp]:
  "tracks (emit evs s) = tracks s"
  "moqPublisherState (emit evs s) = moqPublisherState s"
  "inFlightRequests (emit evs s) = inFlightRequests s"
  "awaiting (emit evs s) = awaiting s"
  "closing (emit evs s) = closing s"
  "written (emit evs s) = written s"
  "wt (emit evs s) = wt s"
  "isSendingStats (emit evs s) = isSendingStats s"
  "controlOut (emit evs s) = controlOut s"
  "toMain (emit evs s) = toMain s @ evs"
  by (simp_all add: emit_def)

lemma in_object_map_of [simp]:
  "map_of trs k = Some t \<Longrightarrow> in_object k (map fst trs)"
  by (auto simp: in_object_def dest: map_of_SomeD intro: rev_image_eqI)

lemma moqCalculateSendOrder_defined:
  "map_of trs (mediaType p) = Some t \<Longrightarrow> \<exists>so. moqCalculateSendOrder trs p = Inr so"
  by (simp add: moqCalculateSendOrder_def Let_def)

text \<open>The synchronous part of a send either changes nothing or suspends.\<close>

lemma createSendPromise_effect:
  assumes "createSendPromise packet s = (r, s')"
  shows "(r \<noteq> Suspended \<and> s' = s) \<or>
         (r = Suspended \<and>
          (\<exists>t so. wt s \<and> map_of (tracks s) (mediaType packet) = Some t \<and>
             (moqPublisherState s (id_t t) = None \<longrightarrow> chunkType packet \<noteq> ''delta'') \<and>
             s' = s\<lparr>moqPublisherState :=
                      (if moqPublisherState s (id_t t) = None
                       then (moqPublisherState s)(id_t t \<mapsto> createTrackState)
                       else moqPublisherState s),
                    awaiting := awaiting s @
                      [\<lparr>p_packet = packet, p_trackId = id_t t, p_sendOrder = so\<rparr>]\<rparr>))"
proof (cases "wt s")
  case False
  with assms show ?thesis by (auto simp: createSendPromise_def)
next
  case True
  show ?thesis
  proof (cases "map_of (tracks s) (mediaType packet)")
    case None
    with True assms show ?thesis by (auto simp: createSendPromise_def)
  next
    case (Some t)
    from moqCalculateSendOrder_defined [OF Some] obtain so where
      so: "moqCalculateSendOrder (tracks s) packet = Inr so" by blast
    show ?thesis
    proof (cases "moqPublisherState s (id_t t) = None \<and> chunkType packet = ''delta''")
      case d: True
      with True Some assms show ?thesis by (auto simp: createSendPromise_def Let_def)
    next
      case False
      have "createSendPromise packet s = (Suspended,
              s\<lparr>moqPublisherState :=
                      (if moqPublisherState s (id_t t) = None
                       then (moqPublisherState s)(id_t t \<mapsto> createTrackState)
                       else moqPublisherState s),
                    awaiting := awaiting s @
                      [\<lparr>p_packet = packet, p_trackId = id_t t, p_sendOrder = so\<rparr>]\<rparr>)"
        using True Some so False
        by (cases "moqPublisherState s (id_t t) = None")
           (auto simp: createSendPromise_def Let_def)
      with assms have "r = Suspended" and
        "s' = s\<lparr>moqPublisherState :=
                      (if moqPublisherState s (id_t t) = None
                       then (moqPublisherState s)(id_t t \<mapsto> createTrackState)
                       else moqPublisherState s),
                    awaiting := awaiting s @
                      [\<lparr>p_packet = packet, p_trackId = id_t t, p_sendOrder = so\<rparr>]\<rparr>"
        by simp_all
      with True Some False show ?thesis by blast
    qed
  qed
qed


lemma report_stats_fields [simp]:
  "tracks (report_stats s) = tracks s"
  "moqPublisherState (report_stats s) = moqPublisherState s"
  "inFlightRequests (report_stats s) = inFlightRequests s"
  "awaiting (report_stats s) = awaiting s"
  "closing (report_stats s) = closing s"
  "written (report_stats s) = written s"
  "wt (report_stats s) = wt s"
  "workerState (report_stats s) = workerState s"
  by (simp_all add: report_stats_def split: sum.splits)

lemma report_stats_toMain:
  "\<exists>evs. toMain (report_stats s) = toMain s @ evs \<and> filter is_dropped evs = []"
  by (auto simp: report_stats_def split: sum.splits)

text \<open>What the listener does with a chunk for a track that has an in-flight object.\<close>

lemma on_chunk_full:
  assumes "inFlightRequests s (type_m e) = Some m" and "maxInFlightRequests t \<le> length m"
  shows "on_chunk e t s =
           emit [Dropped (Some (seqId_c (message_chunkData e))) ''too many inflight requests'']
             (report_stats s)"
  using assms by (simp add: on_chunk_def sendChunkToTransport_def send_outcome_def Let_def)

lemma on_chunk_room:
  assumes "inFlightRequests s (type_m e) = Some m" and "length m < maxInFlightRequests t"
    and "createSendPromise (createRequest_packet (message_chunkData e)) s = (r, s1)"
  shows "on_chunk e t s = emit (send_outcome (seqId_c (message_chunkData e)) r) (report_stats s1)"
  using assms by (simp add: on_chunk_def sendChunkToTransport_def createRequest_def Let_def)

lemma onmessage_chunk:
  assumes "workerState s = Running" and "type_m e \<noteq> ''stop''" and "type_m e \<noteq> ''muxersendini''"
    and "map_of (tracks s) (type_m e) = Some t" and "numSubscribers t = Some n" and "0 < n"
  shows "onmessage w e s = on_chunk e t s"
  using assms by (simp add: onmessage_def)

lemma createRequest_packet_fields [simp]:
  "mediaType (createRequest_packet cd) = mediaType_c cd"
  "seqId (createRequest_packet cd) = seqId_c cd"
  "pId (createRequest_packet cd) = pId_c cd"
  "chunkType (createRequest_packet cd) = (if mediaType_c cd = ''data'' then ''key'' else chunk_type cd)"
  by (simp_all add: createRequest_packet_def RawPackager_SetData_def LocPackager_SetData_def)

lemma message_chunkData_fields [simp]:
  "mediaType_c (message_chunkData e) = type_m e"
  "chunk_type (message_chunkData e) = chunk_type_m e"
  "pId_c (message_chunkData e) = pId_m e"
  by (simp_all add: message_chunkData_def)

text \<open>The fields a resumed send leaves.\<close>

lemma stream_opened_out_of_range: "\<not> n < length (awaiting s) \<Longrightarrow> stream_opened n s = s"
  by (simp add: stream_opened_def)

lemma stream_opened_no_state:
  assumes "n < length (awaiting s)" and "moqPublisherState s (p_trackId (awaiting s ! n)) = None"
  shows "stream_opened n s =
           send_failed (awaiting s ! n) ''TypeError'' (s\<lparr>awaiting := remove_nth n (awaiting s)\<rparr>)"
  using assms
  by (simp add: stream_opened_def createSendPromise_resume_def Let_def error_message_def)

lemma send_failed_fields [simp]:
  "tracks (send_failed pd m s) = tracks s"
  "moqPublisherState (send_failed pd m s) = moqPublisherState s"
  "inFlightRequests (send_failed pd m s) = inFlightRequests s"
  "awaiting (send_failed pd m s) = awaiting s"
  "closing (send_failed pd m s) = closing s"
  "written (send_failed pd m s) = written s"
  "wt (send_failed pd m s) = wt s"
  "workerState (send_failed pd m s) = workerState s"
  by (simp_all add: send_failed_def)

lemma stream_opened_state:
  assumes "n < length (awaiting s)" and "awaiting s ! n = pd"
    and "moqPublisherState s (p_trackId pd) = Some st"
  shows "written (stream_opened n s) = written s @
           [\<lparr>o_mediaType = mediaType (p_packet pd), o_trackId = p_trackId pd,
             groupSeq = (if chunkType (p_packet pd) \<noteq> ''delta''
                         then currentGroupSeq st + 1 else currentGroupSeq st),
             objSeq = (if chunkType (p_packet pd) \<noteq> ''delta'' then 0 else currentObjectSeq st),
             sendOrder = p_sendOrder pd\<rparr>]"
    and "moqPublisherState (stream_opened n s) =
           (moqPublisherState s)(p_trackId pd \<mapsto>
             \<lparr>currentGroupSeq = (if chunkType (p_packet pd) \<noteq> ''delta''
                         then currentGroupSeq st + 1 else currentGroupSeq st),
              currentObjectSeq = (if chunkType (p_packet pd) \<noteq> ''delta''
                         then 0 else currentObjectSeq st) + 1\<rparr>)"
    and "awaiting (stream_opened n s) = remove_nth n (awaiting s)"
    and "tracks (stream_opened n s) = tracks s"
  using assms
  by (auto simp: stream_opened_def createSendPromise_resume_def Let_def addToInflight_def
      send_failed_def emit_def split: option.splits)

lemma stream_opened_inflight:
  assumes "n < length (awaiting s)" and "awaiting s ! n = pd"
    and "moqPublisherState s (p_trackId pd) = Some st"
    and "inFlightRequests s (mediaType (p_packet pd)) = Some m"
  shows "inFlightRequests (stream_opened n s) =
           (if in_object (pId (p_packet pd)) (map fst m) then inFlightRequests s
            else (inFlightRequests s)(mediaType (p_packet pd) \<mapsto>
                   m @ [(pId (p_packet pd), Promise (pId (p_packet pd)))]))"
    and "filter is_dropped (toMain (stream_opened n s)) = filter is_dropped (toMain s)"
  using assms
  by (auto simp: stream_opened_def createSendPromise_resume_def Let_def addToInflight_def
      send_failed_def emit_def split: option.splits)

lemma moqClose_fields [simp]:
  "tracks (moqClose s) = tracks s"
  "moqPublisherState (moqClose s) = moqPublisherState s"
  "inFlightRequests (moqClose s) = inFlightRequests s"
  "awaiting (moqClose s) = awaiting s"
  "closing (moqClose s) = closing s"
  "written (moqClose s) = written s"
  "workerState (moqClose s) = workerState s"
  "toMain (moqClose s) = toMain s"
  by (simp_all add: moqClose_def)

lemma on_stop_fields [simp]:
  "tracks (on_stop w s) = tracks s"
  "moqPublisherState (on_stop w s) = moqPublisherState s"
  "inFlightRequests (on_stop w s) = inFlightRequests s"
  "awaiting (on_stop w s) = awaiting s"
  "closing (on_stop w s) = closing s"
  "written (on_stop w s) = written s"
  "workerState (on_stop w s) = Stopped"
  by (simp_all add: on_stop_def Let_def split: sum.splits)

lemma on_muxersendini_fields [simp]:
  "written (on_muxersendini cfg s) = written s"
  "awaiting (on_muxersendini cfg s) = awaiting s"
  "closing (on_muxersendini cfg s) = closing s"
  "inFlightRequests (on_muxersendini cfg s) = inFlightRequests s"
  by (simp_all add: on_muxersendini_def Let_def moqResetState_def)

lemma on_muxersendini_wrong_state:
  "workerState s \<noteq> Instantiated \<Longrightarrow>
     on_muxersendini cfg s = emit [Err ''received ini message in wrong state. State: ''] s"
  by (simp add: on_muxersendini_def)

lemma on_muxersendini_publisherState:
  "moqPublisherState (on_muxersendini cfg s) = moqPublisherState s \<or>
   moqPublisherState (on_muxersendini cfg s) = Map.empty"
  by (simp add: on_muxersendini_def Let_def moqResetState_def)

lemma on_muxersendini_resume_fields [simp]:
  "written (on_muxersendini_resume w s) = written s"
  "awaiting (on_muxersendini_resume w s) = awaiting s"
  "closing (on_muxersendini_resume w s) = closing s"
  "moqPublisherState (on_muxersendini_resume w s) = moqPublisherState s"
  "tracks (on_muxersendini_resume w s) = tracks s"
  by (simp_all add: on_muxersendini_resume_def Let_def moqClose_def
      split: transport_outcome.splits sum.splits prod.splits)

lemma on_muxersendini_resume_workerState:
  "workerState (on_muxersendini_resume w s) = workerState s \<or>
   workerState (on_muxersendini_resume w s) = Running"
  by (simp add: on_muxersendini_resume_def Let_def moqClose_def
      split: transport_outcome.splits sum.splits prod.splits)

lemma on_chunk_effect:
  assumes t: "map_of (tracks s) (type_m e) = Some t"
  shows "(\<exists>evs. on_chunk e t s = emit evs (report_stats s)) \<or>
         (\<exists>so m. inFlightRequests s (type_m e) = Some m \<and> length m < maxInFlightRequests t \<and>
            wt s \<and>
            (moqPublisherState s (id_t t) = None \<longrightarrow>
               chunkType (createRequest_packet (message_chunkData e)) \<noteq> ''delta'') \<and>
            on_chunk e t s =
              report_stats
                (s\<lparr>moqPublisherState :=
                      (if moqPublisherState s (id_t t) = None
                       then (moqPublisherState s)(id_t t \<mapsto> createTrackState)
                       else moqPublisherState s),
                    awaiting := awaiting s @
                      [\<lparr>p_packet = createRequest_packet (message_chunkData e),
                        p_trackId = id_t t, p_sendOrder = so\<rparr>]\<rparr>))"
proof (cases "inFlightRequests s (type_m e)")
  case None
  then have "on_chunk e t s =
      emit (send_outcome (seqId_c (message_chunkData e)) (Threw TypeError)) (report_stats s)"
    by (simp add: on_chunk_def sendChunkToTransport_def Let_def)
  then show ?thesis by blast
next
  case (Some m)
  show ?thesis
  proof (cases "length m < maxInFlightRequests t")
    case False
    then have "maxInFlightRequests t \<le> length m" by simp
    from on_chunk_full [OF Some this] show ?thesis by blast
  next
    case True
    obtain r s1 where c: "createSendPromise (createRequest_packet (message_chunkData e)) s = (r, s1)"
      by (cases "createSendPromise (createRequest_packet (message_chunkData e)) s")
    note oc = on_chunk_room [OF Some True c]
    from createSendPromise_effect [OF c] show ?thesis
    proof
      assume "r \<noteq> Suspended \<and> s1 = s"
      with oc show ?thesis by blast
    next
      assume a: "r = Suspended \<and>
          (\<exists>t so. wt s \<and> map_of (tracks s) (mediaType (createRequest_packet (message_chunkData e))) = Some t \<and>
             (moqPublisherState s (id_t t) = None \<longrightarrow>
                chunkType (createRequest_packet (message_chunkData e)) \<noteq> ''delta'') \<and>
             s1 = s\<lparr>moqPublisherState :=
                      (if moqPublisherState s (id_t t) = None
                       then (moqPublisherState s)(id_t t \<mapsto> createTrackState)
                       else moqPublisherState s),
                    awaiting := awaiting s @
                      [\<lparr>p_packet = createRequest_packet (message_chunkData e), p_trackId = id_t t,
                        p_sendOrder = so\<rparr>]\<rparr>)"
      then obtain t' so where
        w: "wt s" and t': "map_of (tracks s) (type_m e) = Some t'" and
        d: "moqPublisherState s (id_t t') = None \<longrightarrow>
                chunkType (createRequest_packet (message_chunkData e)) \<noteq> ''delta''" and
        s1: "s1 = s\<lparr>moqPublisherState :=
                      (if moqPublisherState s (id_t t') = None
                       then (moqPublisherState s)(id_t t' \<mapsto> createTrackState)
                       else moqPublisherState s),
                    awaiting := awaiting s @
                      [\<lparr>p_packet = createRequest_packet (message_chunkData e), p_trackId = id_t t',
                        p_sendOrder = so\<rparr>]\<rparr>"
        by auto
      from t t' have tt: "t' = t" by simp
      from a oc have "on_chunk e t s = report_stats s1"
        by (simp add: send_outcome_def emit_def)
      with Some True w d s1 tt show ?thesis
        by (intro disjI2 exI [of _ so] exI [of _ m]) simp
    qed
  qed
qed

lemma on_chunk_fields [simp]:
  assumes "map_of (tracks s) (type_m e) = Some t"
  shows "written (on_chunk e t s) = written s"
    and "tracks (on_chunk e t s) = tracks s"
    and "inFlightRequests (on_chunk e t s) = inFlightRequests s"
    and "closing (on_chunk e t s) = closing s"
    and "workerState (on_chunk e t s) = workerState s"
  using on_chunk_effect [OF assms] by auto

lemma onmessage_written [simp]: "written (onmessage w e s) = written s"
  by (simp add: onmessage_def Let_def split: option.splits)

lemma onmessage_closing [simp]: "closing (onmessage w e s) = closing s"
  by (simp add: onmessage_def Let_def split: option.splits)

lemma onmessage_workerState_back:
  "workerState (onmessage w e s) = Created \<or> workerState (onmessage w e s) = Instantiated \<Longrightarrow>
     workerState s = Created \<or> workerState s = Instantiated"
  by (auto simp: onmessage_def Let_def split: option.splits if_splits)

lemma onmessage_not_running:
  assumes "workerState s \<noteq> Running"
  shows "awaiting (onmessage w e s) = awaiting s"
    and "moqPublisherState (onmessage w e s) = moqPublisherState s \<or>
         workerState s \<noteq> Stopped \<and> moqPublisherState (onmessage w e s) = Map.empty"
  using assms on_muxersendini_publisherState [of "config_m e" s]
    on_muxersendini_publisherState [of "config_m e" "s\<lparr>workerState := Instantiated\<rparr>"]
  by (auto simp: onmessage_def Let_def)

lemma onmessage_running:
  assumes r: "workerState s = Running"
  shows "(awaiting (onmessage w e s) = awaiting s \<and>
          moqPublisherState (onmessage w e s) = moqPublisherState s) \<or>
         (\<exists>t so m. map_of (tracks s) (type_m e) = Some t \<and>
            inFlightRequests s (type_m e) = Some m \<and> length m < maxInFlightRequests t \<and>
            (moqPublisherState s (id_t t) = None \<longrightarrow>
               chunkType (createRequest_packet (message_chunkData e)) \<noteq> ''delta'') \<and>
            moqPublisherState (onmessage w e s) =
              (if moqPublisherState s (id_t t) = None
               then (moqPublisherState s)(id_t t \<mapsto> createTrackState)
               else moqPublisherState s) \<and>
            awaiting (onmessage w e s) = awaiting s @
              [\<lparr>p_packet = createRequest_packet (message_chunkData e),
                p_trackId = id_t t, p_sendOrder = so\<rparr>])"
proof (cases "type_m e = ''stop'' \<or> type_m e = ''muxersendini''")
  case True
  with r show ?thesis
    by (auto simp: onmessage_def Let_def on_muxersendini_wrong_state)
next
  case False
  show ?thesis
  proof (cases "map_of (tracks s) (type_m e)")
    case None
    with r False show ?thesis by (simp add: onmessage_def)
  next
    case (Some t)
    then have io: "in_object (type_m e) (map fst (tracks s))" by simp
    show ?thesis
    proof (cases "\<exists>n. numSubscribers t = Some n \<and> 0 < n")
      case nosub: False
      with r False Some io show ?thesis
        by (auto simp: onmessage_def split: option.splits)
    next
      case True
      then obtain n where "numSubscribers t = Some n" "0 < n" by blast
      with r False Some have eq: "onmessage w e s = on_chunk e t s"
        by (simp add: onmessage_chunk)
      from on_chunk_effect [OF Some, of ] show ?thesis
        unfolding eq using Some by (elim disjE exE conjE) (simp, force)
    qed
  qed
qed

section \<open>Group and object sequence\<close>

lemma stream_rejected_fields [simp]:
  "written (stream_rejected n m s) = written s"
  "moqPublisherState (stream_rejected n m s) = moqPublisherState s"
  "tracks (stream_rejected n m s) = tracks s"
  "inFlightRequests (stream_rejected n m s) = inFlightRequests s"
  "closing (stream_rejected n m s) = closing s"
  by (simp_all add: stream_rejected_def)

lemma stream_rejected_awaiting:
  "awaiting (stream_rejected n m s) =
     (if n < length (awaiting s) then remove_nth n (awaiting s) else awaiting s)"
  by (simp add: stream_rejected_def)

lemma removeFromInflight_fields:
  assumes "removeFromInflight mt i s = Inr s'"
  shows "written s' = written s" "moqPublisherState s' = moqPublisherState s"
    "tracks s' = tracks s" "awaiting s' = awaiting s" "closing s' = closing s"
    "toMain s' = toMain s"
  using assms by (auto simp: removeFromInflight_def split: option.splits if_splits)

lemma close_settled_fields [simp]:
  "written (close_settled n r s) = written s"
  "moqPublisherState (close_settled n r s) = moqPublisherState s"
  "tracks (close_settled n r s) = tracks s"
  "awaiting (close_settled n r s) = awaiting s"
  by (auto simp: close_settled_def Let_def removeFromInflight_fields
      split: sum.splits option.splits)

lemma subscription_body_fields [simp]:
  "written (subscription_body sub s) = written s"
  "moqPublisherState (subscription_body sub s) = moqPublisherState s"
  "awaiting (subscription_body sub s) = awaiting s"
  "closing (subscription_body sub s) = closing s"
  "inFlightRequests (subscription_body sub s) = inFlightRequests s"
  by (simp_all add: subscription_body_def split: option.splits prod.splits)

lemma remove_nth_empty: "remove_nth n xs = [] " if "xs = []"
  using that by (simp add: remove_nth_def)

lemma pair_lt_steps:
  "pair_lt y (g, ob) \<Longrightarrow> pair_lt y (g + 1, 0)"
  "pair_lt y (g, ob) \<Longrightarrow> pair_lt y (g + 1, k)"
  "pair_lt y (g, ob) \<Longrightarrow> pair_lt y (g, ob + 1)"
  "pair_lt (g, ob) (g, ob + 1)"
  by (auto simp: pair_lt_def)

lemma below_state_None:
  "below_state tid s \<Longrightarrow> moqPublisherState s tid = None \<Longrightarrow> emitted tid s = []"
  by (cases "emitted tid s") (simp_all add: below_state_def)

lemma ordered_inv_frame:
  assumes "ordered_inv s"
    and "written s' = written s" and "moqPublisherState s' = moqPublisherState s"
    and "workerState s' = Created \<or> workerState s' = Instantiated \<Longrightarrow>
         (workerState s = Created \<or> workerState s = Instantiated) \<and> awaiting s' = awaiting s"
  shows "ordered_inv s'"
proof -
  have e: "emitted tid s' = emitted tid s" for tid using assms(2) by (simp add: emitted_def)
  have b: "below_state tid s' = below_state tid s" for tid
    using assms(3) e by (simp add: below_state_def)
  from assms(1,2,4) e b show ?thesis
    unfolding ordered_inv_def by auto
qed

lemma ordered_inv_nothing_written:
  assumes "written s = []" and "awaiting s = []"
  shows "ordered_inv s"
  using assms by (simp add: ordered_inv_def emitted_def below_state_def)

lemma ordered_inv_init: "ordered_inv sender_init"
  by (rule ordered_inv_nothing_written) (simp_all add: sender_init_def)

lemma ordered_inv_new_state:
  assumes inv: "ordered_inv s" and r: "workerState s' = Running"
    and w: "written s' = written s"
    and p: "moqPublisherState s' =
              (if moqPublisherState s tid = None
               then (moqPublisherState s)(tid \<mapsto> createTrackState) else moqPublisherState s)"
  shows "ordered_inv s'"
proof -
  have e: "emitted i s' = emitted i s" for i using w by (simp add: emitted_def)
  have "below_state i s'" for i
  proof (cases "moqPublisherState s tid = None \<and> i = tid")
    case True
    from inv have "below_state tid s" by (simp add: ordered_inv_def)
    from below_state_None [OF this] True have "emitted tid s = []" by simp
    with True e show ?thesis by (simp add: below_state_def)
  next
    case False
    then have "moqPublisherState s' i = moqPublisherState s i" using p by auto
    moreover from inv have "below_state i s" by (simp add: ordered_inv_def)
    ultimately show ?thesis using e by (simp add: below_state_def)
  qed
  with inv r e show ?thesis by (simp add: ordered_inv_def)
qed

lemma ordered_inv_onmessage:
  assumes inv: "ordered_inv s"
  shows "ordered_inv (onmessage w e s)"
proof (cases "workerState s = Running")
  case True
  have noearly: "\<not> (workerState (onmessage w e s) = Created \<or>
                 workerState (onmessage w e s) = Instantiated)"
    using onmessage_workerState_back [of w e s] True by auto
  from onmessage_running [OF True, of w e] show ?thesis
  proof (elim disjE exE conjE)
    assume "awaiting (onmessage w e s) = awaiting s"
      "moqPublisherState (onmessage w e s) = moqPublisherState s"
    with inv noearly show ?thesis by (intro ordered_inv_frame [OF inv]) simp_all
  next
    fix t so m
    assume p: "moqPublisherState (onmessage w e s) =
              (if moqPublisherState s (id_t t) = None
               then (moqPublisherState s)(id_t t \<mapsto> createTrackState)
               else moqPublisherState s)"
    have "ordered_inv ((onmessage w e s)\<lparr>workerState := Running\<rparr>)"
      by (rule ordered_inv_new_state [OF inv, of _ "id_t t"]) (simp_all add: p)
    with noearly show ?thesis by (simp add: ordered_inv_def emitted_def below_state_def)
  qed
next
  case False
  from onmessage_not_running [OF False, of w e] have
    a: "awaiting (onmessage w e s) = awaiting s" and
    p: "moqPublisherState (onmessage w e s) = moqPublisherState s \<or>
         workerState s \<noteq> Stopped \<and> moqPublisherState (onmessage w e s) = Map.empty"
    by simp_all
  from p show ?thesis
  proof
    assume "moqPublisherState (onmessage w e s) = moqPublisherState s"
    with a onmessage_workerState_back [of w e s] show ?thesis
      by (intro ordered_inv_frame [OF inv]) auto
  next
    assume "workerState s \<noteq> Stopped \<and> moqPublisherState (onmessage w e s) = Map.empty"
    with False have "workerState s = Created \<or> workerState s = Instantiated"
      by (cases "workerState s") auto
    with inv have "written s = []" "awaiting s = []" by (simp_all add: ordered_inv_def)
    with a show ?thesis by (intro ordered_inv_nothing_written) simp_all
  qed
qed

lemma emitted_snoc:
  "written s' = written s @ [ob] \<Longrightarrow>
     emitted tid s' = (if o_trackId ob = tid then emitted tid s @ [(groupSeq ob, objSeq ob)]
                       else emitted tid s)"
  by (simp add: emitted_def)

lemma ordered_inv_stream_opened:
  assumes inv: "ordered_inv s"
  shows "ordered_inv (stream_opened n s)"
proof (cases "n < length (awaiting s)")
  case False
  then show ?thesis using inv by (simp add: stream_opened_out_of_range)
next
  case True
  then have ne: "awaiting s \<noteq> []" by auto
  with inv have late: "\<not> (workerState s = Created \<or> workerState s = Instantiated)"
    by (auto simp: ordered_inv_def)
  define pd where "pd = awaiting s ! n"
  show ?thesis
  proof (cases "moqPublisherState s (p_trackId pd)")
    case None
    with True have "stream_opened n s =
        send_failed pd ''TypeError'' (s\<lparr>awaiting := remove_nth n (awaiting s)\<rparr>)"
      by (simp add: stream_opened_no_state pd_def)
    with late show ?thesis by (intro ordered_inv_frame [OF inv]) simp_all
  next
    case (Some st)
    let ?s' = "stream_opened n s"
    let ?g = "if chunkType (p_packet pd) \<noteq> ''delta''
              then currentGroupSeq st + 1 else currentGroupSeq st"
    let ?o = "if chunkType (p_packet pd) \<noteq> ''delta'' then 0 else currentObjectSeq st"
    note so = stream_opened_state [OF True pd_def [symmetric] Some]
    have ws: "workerState ?s' = workerState s" by simp
    have em: "emitted tid ?s' =
        (if tid = p_trackId pd then emitted tid s @ [(?g, ?o)] else emitted tid s)" for tid
      using emitted_snoc [OF so(1), of tid] by auto
    have "sorted_wrt pair_lt (emitted tid ?s') \<and> below_state tid ?s'" for tid
    proof (cases "tid = p_trackId pd")
      case False
      with inv em so(2) show ?thesis by (simp add: ordered_inv_def below_state_def)
    next
      case True
      from inv have srt: "sorted_wrt pair_lt (emitted tid s)" and
        bel: "below_state tid s" by (simp_all add: ordered_inv_def)
      from bel Some True have
        old: "\<forall>y\<in>set (emitted tid s). pair_lt y (currentGroupSeq st, currentObjectSeq st)"
        by (simp add: below_state_def list_all_iff)
      then have new: "\<forall>y\<in>set (emitted tid s). pair_lt y (?g, ?o)"
        by (auto simp: pair_lt_def)
      then have "\<forall>y\<in>set (emitted tid s). pair_lt y (?g, ?o + 1)"
        by (auto simp: pair_lt_def)
      moreover have "pair_lt (?g, ?o) (?g, ?o + 1)" by (simp add: pair_lt_def)
      ultimately have "below_state tid ?s'"
        using True by (simp add: below_state_def em so(2) list_all_iff)
      moreover have "sorted_wrt pair_lt (emitted tid ?s')"
        using srt new True by (simp add: em sorted_wrt_append)
      ultimately show ?thesis by simp
    qed
    with late ws show ?thesis by (simp add: ordered_inv_def)
  qed
qed

lemma ordered_inv_step:
  assumes "ordered_inv s"
  shows "ordered_inv (step a s)"
proof (cases a)
  case (Message w e)
  with assms show ?thesis by (simp add: ordered_inv_onmessage)
next
  case (StreamOpened n)
  with assms show ?thesis by (simp add: ordered_inv_stream_opened)
next
  case (StreamRejected n m)
  have "ordered_inv (stream_rejected n m s)"
  proof (rule ordered_inv_frame [OF assms])
    assume "workerState (stream_rejected n m s) = Created \<or>
        workerState (stream_rejected n m s) = Instantiated"
    then have e: "workerState s = Created \<or> workerState s = Instantiated" by simp
    with assms have "awaiting s = []" by (simp add: ordered_inv_def)
    with e show "(workerState s = Created \<or> workerState s = Instantiated) \<and>
        awaiting (stream_rejected n m s) = awaiting s"
      by (simp add: stream_rejected_awaiting)
  qed simp_all
  with StreamRejected show ?thesis by simp
next
  case (CloseSettled n r)
  have "ordered_inv (close_settled n r s)"
    by (rule ordered_inv_frame [OF assms]) simp_all
  with CloseSettled show ?thesis by simp
next
  case (SubscribeRequest sub)
  have "ordered_inv (subscription_body sub s)"
    by (rule ordered_inv_frame [OF assms]) simp_all
  with SubscribeRequest show ?thesis by simp
next
  case (InitResumed w)
  have "ordered_inv (on_muxersendini_resume w s)"
    using on_muxersendini_resume_workerState [of w s]
    by (intro ordered_inv_frame [OF assms]) auto
  with InitResumed show ?thesis by simp
qed

lemma ordered_inv_run: "ordered_inv s \<Longrightarrow> ordered_inv (run acts s)"
  unfolding run_def by (induction acts arbitrary: s) (simp_all add: ordered_inv_step)

subsection \<open>An example run\<close>

lemma run_Nil [simp]: "run [] s = s"
  by (simp add: run_def)

lemma run_Cons [simp]: "run (a # acts) s = run acts (step a s)"
  by (simp add: run_def)

lemma after_ini:
  "on_muxersendini_resume quiet (onmessage quiet ini_msg sender_init) =
     (running two_tracks)\<lparr>toMain := [Info ''Received SETUP response'',
        Info ''Received ANNOUNCE response'', Info ''MOQ Initialized, waiting for subscriptions'',
        Info ''Started subscription loop''],
      controlOut := [Setup MOQ_PARAMETER_ROLE_PUBLISHER, Announce (Some ''vc'') (Some ''secret'')]\<rparr>"
  unfolding ini_asked
  by (simp add: on_muxersendini_resume_def sender_init_def quiet_def Let_def
      ok_session moqClose_def emit_def running_def)

lemma ini_done_fields:
  "workerState ini_done = Running" "tracks ini_done = two_tracks" "wt ini_done"
  "moqPublisherState ini_done = Map.empty" "awaiting ini_done = []" "written ini_done = []"
  "inFlightRequests ini_done = initInflightReqData two_tracks" "isSendingStats ini_done = False"
  "closing ini_done = []"
  by (simp_all add: ini_done_def after_ini running_def)

lemmas video_defs = chunk_msg_def two_tracks_def subscribed_def video_track_def audio_track_def
  video_send_def video_object_def

lemma key_asked: "onmessage quiet (chunk_msg ''video'' ''key'' 0) ini_done = key_asked"
  by (simp add: key_asked_def ini_done_fields send_defs Let_def video_defs)

lemma key_sent: "stream_opened 0 key_asked = key_sent"
  by (simp add: key_asked_def key_sent_def ini_done_fields send_defs Let_def video_defs)

lemma delta_asked: "onmessage quiet (chunk_msg ''video'' ''delta'' 1) key_sent = delta_asked"
  by (simp add: delta_asked_def key_sent_def ini_done_fields send_defs Let_def video_defs)

lemma delta_sent: "stream_opened 0 delta_asked = delta_sent"
  by (rule sender.equality)
     (simp_all add: delta_asked_def delta_sent_def key_sent_def ini_done_fields send_defs Let_def
        video_defs numeral_2_eq_2)

lemma key_delta_run: "run key_delta_actions sender_init = delta_sent"
  by (simp add: key_delta_actions_def ini_done_def [symmetric] key_asked key_sent delta_asked
      delta_sent)

subsection \<open>The claim\<close>

text \<open>
  C2. When a send resumes for a track that has publisher state, a chunk that is not a
  delta first increments \<^verbatim>\<open>currentGroupSeq\<close> and resets \<^verbatim>\<open>currentObjectSeq\<close> to 0, a
  delta keeps both; the object written carries the resulting pair, and afterwards
  \<^verbatim>\<open>currentObjectSeq\<close> is one more. No other step writes an object. Whatever steps the
  worker takes from its initial state, in whatever order, the pairs written for a track
  id are strictly increasing in the lexicographic order.
\<close>

theorem group_object_sequence:
  "(n < length (awaiting s) \<and> awaiting s ! n = pd \<and>
      moqPublisherState s (p_trackId pd) = Some st \<longrightarrow>
      written (stream_opened n s) = written s @
        [\<lparr>o_mediaType = mediaType (p_packet pd), o_trackId = p_trackId pd,
          groupSeq = (if chunkType (p_packet pd) \<noteq> ''delta''
                      then currentGroupSeq st + 1 else currentGroupSeq st),
          objSeq = (if chunkType (p_packet pd) \<noteq> ''delta'' then 0 else currentObjectSeq st),
          sendOrder = p_sendOrder pd\<rparr>] \<and>
      moqPublisherState (stream_opened n s) (p_trackId pd) =
        Some \<lparr>currentGroupSeq = (if chunkType (p_packet pd) \<noteq> ''delta''
                                  then currentGroupSeq st + 1 else currentGroupSeq st),
              currentObjectSeq = (if chunkType (p_packet pd) \<noteq> ''delta''
                                  then 0 else currentObjectSeq st) + 1\<rparr>) \<and>
   (case a of StreamOpened k \<Rightarrow> True | _ \<Rightarrow> written (step a s) = written s) \<and>
   sorted_wrt pair_lt (emitted tid (run acts sender_init))"
proof (intro conjI impI)
  assume a: "n < length (awaiting s) \<and> awaiting s ! n = pd \<and>
      moqPublisherState s (p_trackId pd) = Some st"
  then have 1: "n < length (awaiting s)" and 2: "awaiting s ! n = pd"
    and 3: "moqPublisherState s (p_trackId pd) = Some st" by simp_all
  from stream_opened_state(1) [OF 1 2 3]
  show "written (stream_opened n s) = written s @
        [\<lparr>o_mediaType = mediaType (p_packet pd), o_trackId = p_trackId pd,
          groupSeq = (if chunkType (p_packet pd) \<noteq> ''delta''
                      then currentGroupSeq st + 1 else currentGroupSeq st),
          objSeq = (if chunkType (p_packet pd) \<noteq> ''delta'' then 0 else currentObjectSeq st),
          sendOrder = p_sendOrder pd\<rparr>]" .
  from stream_opened_state(2) [OF 1 2 3]
  show "moqPublisherState (stream_opened n s) (p_trackId pd) =
        Some \<lparr>currentGroupSeq = (if chunkType (p_packet pd) \<noteq> ''delta''
                                  then currentGroupSeq st + 1 else currentGroupSeq st),
              currentObjectSeq = (if chunkType (p_packet pd) \<noteq> ''delta''
                                  then 0 else currentObjectSeq st) + 1\<rparr>"
    by simp
next
  show "case a of StreamOpened k \<Rightarrow> True | _ \<Rightarrow> written (step a s) = written s"
    by (cases a) simp_all
next
  from ordered_inv_run [OF ordered_inv_init, of acts]
  show "sorted_wrt pair_lt (emitted tid (run acts sender_init))"
    by (simp add: ordered_inv_def)
qed

theorem group_object_sequence_witness:
  "written (stream_opened 0 key_asked) = written key_asked @ [video_object 1 0 0] \<and>
   moqPublisherState (stream_opened 0 key_asked) 1 =
     Some \<lparr>currentGroupSeq = 1, currentObjectSeq = 1\<rparr> \<and>
   written (stream_opened 0 delta_asked) = written delta_asked @ [video_object 1 1 1] \<and>
   moqPublisherState (stream_opened 0 delta_asked) 1 =
     Some \<lparr>currentGroupSeq = 1, currentObjectSeq = 2\<rparr> \<and>
   written (step (Message quiet (chunk_msg ''video'' ''key'' 0)) ini_done) = written ini_done \<and>
   emitted 1 (run key_delta_actions sender_init) = [(1, 0), (1, 1)] \<and>
   sorted_wrt pair_lt (emitted 1 (run key_delta_actions sender_init))"
  using group_object_sequence [of 0 key_asked "video_send ''key'' 0" createTrackState
          "Message quiet (chunk_msg ''video'' ''key'' 0)" 1 key_delta_actions]
        group_object_sequence [of 0 delta_asked "video_send ''delta'' 1"
          "\<lparr>currentGroupSeq = 1, currentObjectSeq = 1\<rparr>"
          "Message quiet (chunk_msg ''video'' ''key'' 0)" 1 key_delta_actions]
  by (simp add: key_asked_def delta_asked_def key_sent_def delta_sent_def key_delta_run
      ini_done_fields video_send_def video_object_def createTrackState_def emitted_def)

section \<open>The first object of a track\<close>

lemma createSendPromise_first_delta:
  assumes "wt s" and "map_of (tracks s) (mediaType packet) = Some t"
    and "moqPublisherState s (id_t t) = None" and "chunkType packet = ''delta''"
  shows "createSendPromise packet s =
           (DroppedR ''Dropped chunk because first object can not be delta, data: '', s)"
  using assms by (simp add: createSendPromise_def Let_def)

lemma createSendPromise_first_key:
  assumes "wt s" and "map_of (tracks s) (mediaType packet) = Some t"
    and "moqPublisherState s (id_t t) = None" and "chunkType packet \<noteq> ''delta''"
  shows "\<exists>so. createSendPromise packet s =
           (Suspended,
            s\<lparr>moqPublisherState := (moqPublisherState s)(id_t t \<mapsto> createTrackState),
              awaiting := awaiting s @
                [\<lparr>p_packet = packet, p_trackId = id_t t, p_sendOrder = so\<rparr>]\<rparr>)"
proof -
  from moqCalculateSendOrder_defined [OF assms(2)] obtain so where
    "moqCalculateSendOrder (tracks s) packet = Inr so" by blast
  with assms have "createSendPromise packet s =
           (Suspended,
            s\<lparr>moqPublisherState := (moqPublisherState s)(id_t t \<mapsto> createTrackState),
              awaiting := awaiting s @
                [\<lparr>p_packet = packet, p_trackId = id_t t, p_sendOrder = so\<rparr>]\<rparr>)"
    by (simp add: createSendPromise_def Let_def)
  then show ?thesis by blast
qed

lemma onmessage_first_delta:
  assumes "workerState s = Running" and "wt s"
    and "type_m e \<noteq> ''stop''" and "type_m e \<noteq> ''muxersendini''" and "type_m e \<noteq> ''data''"
    and t: "map_of (tracks s) (type_m e) = Some t" and "numSubscribers t = Some k" and "0 < k"
    and m: "inFlightRequests s (type_m e) = Some m" and r: "length m < maxInFlightRequests t"
    and "moqPublisherState s (id_t t) = None" and "chunk_type_m e = ''delta''"
  shows "onmessage w e s =
           emit [Dropped (Some (seqId_c (message_chunkData e)))
                   ''Dropped chunk because first object can not be delta, data: '']
             (report_stats s)"
proof -
  have "createSendPromise (createRequest_packet (message_chunkData e)) s =
          (DroppedR ''Dropped chunk because first object can not be delta, data: '', s)"
    using assms by (intro createSendPromise_first_delta [where t = t]) simp_all
  from on_chunk_room [OF m r this] onmessage_chunk [of s e t k w] assms
  show ?thesis by (simp add: send_outcome_def)
qed

lemma createRequest_data_not_dropped:
  assumes "mediaType_c cd = ''data''"
  shows "fst (createRequest cd s) \<noteq> DroppedR m"
proof
  assume d: "fst (createRequest cd s) = DroppedR m"
  obtain r s' where c: "createSendPromise (createRequest_packet cd) s = (r, s')"
    by (cases "createSendPromise (createRequest_packet cd) s")
  with d have r: "r = DroppedR m" by (simp add: createRequest_def)
  have "chunkType (createRequest_packet cd) = ''key''" using assms by simp
  with c r show False
    by (auto simp: createSendPromise_def Let_def split: if_splits option.splits sum.splits)
qed

text \<open>
  C5. With the transport open, for a packet of a configured track that has no publisher
  state yet: a delta is dropped with the first-object message and the worker is left
  exactly as it was (no stream is asked for, no state is created); any other chunk type
  creates the state with both counters 0 and asks for the stream. In the listener, the
  delta's drop is what is posted, after the statistics.
\<close>

theorem first_object_must_be_key:
  "(wt s \<and> map_of (tracks s) (mediaType packet) = Some t \<and>
      moqPublisherState s (id_t t) = None \<longrightarrow>
      (chunkType packet = ''delta'' \<longrightarrow>
         createSendPromise packet s =
           (DroppedR ''Dropped chunk because first object can not be delta, data: '', s)) \<and>
      (chunkType packet \<noteq> ''delta'' \<longrightarrow>
         (\<exists>so. createSendPromise packet s =
            (Suspended,
             s\<lparr>moqPublisherState :=
                  (moqPublisherState s)(id_t t \<mapsto>
                     \<lparr>currentGroupSeq = 0, currentObjectSeq = 0\<rparr>),
               awaiting := awaiting s @
                 [\<lparr>p_packet = packet, p_trackId = id_t t, p_sendOrder = so\<rparr>]\<rparr>)))) \<and>
   (workerState s = Running \<and> wt s \<and> type_m e \<noteq> ''stop'' \<and> type_m e \<noteq> ''muxersendini'' \<and>
      type_m e \<noteq> ''data'' \<and> map_of (tracks s) (type_m e) = Some t \<and>
      numSubscribers t = Some k \<and> 0 < k \<and> inFlightRequests s (type_m e) = Some m \<and>
      length m < maxInFlightRequests t \<and> moqPublisherState s (id_t t) = None \<and>
      chunk_type_m e = ''delta'' \<longrightarrow>
      onmessage w e s =
        emit [Dropped (Some (case seqId_m e of None \<Rightarrow> 0 | Some q \<Rightarrow> q))
                ''Dropped chunk because first object can not be delta, data: '']
          (report_stats s))"
proof (intro conjI impI)
  assume a: "wt s \<and> map_of (tracks s) (mediaType packet) = Some t \<and>
      moqPublisherState s (id_t t) = None"
  {
    assume "chunkType packet = ''delta''"
    with a show "createSendPromise packet s =
           (DroppedR ''Dropped chunk because first object can not be delta, data: '', s)"
      by (intro createSendPromise_first_delta [where t = t]) simp_all
  }
  {
    assume "chunkType packet \<noteq> ''delta''"
    with a createSendPromise_first_key [of s packet t]
    show "\<exists>so. createSendPromise packet s =
            (Suspended,
             s\<lparr>moqPublisherState :=
                  (moqPublisherState s)(id_t t \<mapsto>
                     \<lparr>currentGroupSeq = 0, currentObjectSeq = 0\<rparr>),
               awaiting := awaiting s @
                 [\<lparr>p_packet = packet, p_trackId = id_t t, p_sendOrder = so\<rparr>]\<rparr>)"
      by (simp add: createTrackState_def)
  }
next
  assume "workerState s = Running \<and> wt s \<and> type_m e \<noteq> ''stop'' \<and> type_m e \<noteq> ''muxersendini'' \<and>
      type_m e \<noteq> ''data'' \<and> map_of (tracks s) (type_m e) = Some t \<and>
      numSubscribers t = Some k \<and> 0 < k \<and> inFlightRequests s (type_m e) = Some m \<and>
      length m < maxInFlightRequests t \<and> moqPublisherState s (id_t t) = None \<and>
      chunk_type_m e = ''delta''"
  with onmessage_first_delta [of s e t k m w]
  show "onmessage w e s =
        emit [Dropped (Some (case seqId_m e of None \<Rightarrow> 0 | Some q \<Rightarrow> q))
                ''Dropped chunk because first object can not be delta, data: '']
          (report_stats s)"
    by (simp add: message_chunkData_def)
qed

theorem first_object_must_be_key_witness:
  "createSendPromise (createRequest_packet (message_chunkData (chunk_msg ''video'' ''delta'' 0)))
       ini_done =
     (DroppedR ''Dropped chunk because first object can not be delta, data: '', ini_done) \<and>
   (\<exists>so. createSendPromise
            (createRequest_packet (message_chunkData (chunk_msg ''video'' ''key'' 0))) ini_done =
      (Suspended,
       ini_done\<lparr>moqPublisherState := [1 \<mapsto> \<lparr>currentGroupSeq = 0, currentObjectSeq = 0\<rparr>],
         awaiting :=
           [\<lparr>p_packet = createRequest_packet (message_chunkData (chunk_msg ''video'' ''key'' 0)),
             p_trackId = 1, p_sendOrder = so\<rparr>]\<rparr>)) \<and>
   onmessage quiet (chunk_msg ''video'' ''delta'' 0) ini_done =
     emit [Dropped (Some 0) ''Dropped chunk because first object can not be delta, data: '']
       ini_done"
proof -
  have v: "map_of (tracks ini_done) ''video'' = Some (subscribed video_track)"
    by (simp add: ini_done_fields two_tracks_def)
  have i: "inFlightRequests ini_done ''video'' = Some []"
    by (simp add: ini_done_fields two_tracks_def)
  have r: "report_stats ini_done = ini_done"
    by (simp add: report_stats_def ini_done_fields)
  show ?thesis
    using first_object_must_be_key
        [of ini_done "createRequest_packet (message_chunkData (chunk_msg ''video'' ''delta'' 0))"
          "subscribed video_track" "chunk_msg ''video'' ''delta'' 0" 1 "[]" quiet]
      first_object_must_be_key
        [of ini_done "createRequest_packet (message_chunkData (chunk_msg ''video'' ''key'' 0))"
          "subscribed video_track" "chunk_msg ''video'' ''delta'' 0" 1 "[]" quiet]
      v i r
    by (simp add: ini_done_fields chunk_msg_def subscribed_def video_track_def)
qed

section \<open>The data track\<close>

lemma new_groups_snoc:
  "new_groups g (obs @ [ob]) \<longleftrightarrow>
     new_groups g obs \<and>
     (o_mediaType ob = ''data'' \<longrightarrow> groupSeq ob = last_group g obs + 1 \<and> objSeq ob = 0)"
  by (induction obs arbitrary: g) (auto simp: last_group_def)

lemma new_groups_all_data:
  "new_groups g obs \<Longrightarrow> list_all (\<lambda>ob. o_mediaType ob = ''data'') obs \<Longrightarrow>
     map (\<lambda>ob. (groupSeq ob, objSeq ob)) obs = map (\<lambda>k. (k, 0)) [Suc g ..< Suc g + length obs]"
proof (induction obs arbitrary: g)
  case Nil
  then show ?case by simp
next
  case (Cons ob obs)
  then have g: "groupSeq ob = Suc g" "objSeq ob = 0" and
    l: "list_all (\<lambda>ob. o_mediaType ob = ''data'') obs"
    by simp_all
  from Cons.prems(1) g have r: "new_groups (Suc g) obs" by simp
  have "[Suc g ..< Suc g + length (ob # obs)] = Suc g # [Suc (Suc g) ..< Suc (Suc g) + length obs]"
    by (subst upt_conv_Cons) simp_all
  with Cons.IH [OF r l] g show ?case by (simp del: upt_Suc)
qed

lemma remove_nth_subset: "set (remove_nth n xs) \<subseteq> set xs"
  by (auto simp: remove_nth_def dest: in_set_takeD in_set_dropD)

lemma data_invD:
  assumes "data_inv s"
  shows "new_groups 0 (on_track tid s)"
    and "moqPublisherState s tid = None \<Longrightarrow> on_track tid s = []"
    and "moqPublisherState s tid = Some st \<Longrightarrow>
           currentGroupSeq st = last_group 0 (on_track tid s)"
    and "workerState s = Created \<or> workerState s = Instantiated \<Longrightarrow>
           written s = [] \<and> awaiting s = []"
    and "pd \<in> set (awaiting s) \<Longrightarrow> mediaType (p_packet pd) = ''data'' \<Longrightarrow>
           chunkType (p_packet pd) = ''key''"
proof -
  from assms have a: "\<forall>tid. new_groups 0 (on_track tid s) \<and>
         (case moqPublisherState s tid of
            None \<Rightarrow> on_track tid s = []
          | Some st \<Rightarrow> currentGroupSeq st = last_group 0 (on_track tid s))"
    by (simp add: data_inv_def)
  from a show "new_groups 0 (on_track tid s)" by blast
  from a have c: "case moqPublisherState s tid of
            None \<Rightarrow> on_track tid s = []
          | Some st \<Rightarrow> currentGroupSeq st = last_group 0 (on_track tid s)" by blast
  from c show "moqPublisherState s tid = None \<Longrightarrow> on_track tid s = []" by simp
  from c show "moqPublisherState s tid = Some st \<Longrightarrow>
           currentGroupSeq st = last_group 0 (on_track tid s)" by simp
  from assms show "workerState s = Created \<or> workerState s = Instantiated \<Longrightarrow>
           written s = [] \<and> awaiting s = []" by (simp add: data_inv_def)
  from assms show "pd \<in> set (awaiting s) \<Longrightarrow> mediaType (p_packet pd) = ''data'' \<Longrightarrow>
           chunkType (p_packet pd) = ''key''" by (simp add: data_inv_def list_all_iff)
qed

lemma data_invI:
  assumes "workerState s = Created \<or> workerState s = Instantiated \<Longrightarrow>
           written s = [] \<and> awaiting s = []"
    and "\<And>pd. pd \<in> set (awaiting s) \<Longrightarrow> mediaType (p_packet pd) = ''data'' \<Longrightarrow>
           chunkType (p_packet pd) = ''key''"
    and "\<And>tid. new_groups 0 (on_track tid s)"
    and "\<And>tid. moqPublisherState s tid = None \<Longrightarrow> on_track tid s = []"
    and "\<And>tid st. moqPublisherState s tid = Some st \<Longrightarrow>
           currentGroupSeq st = last_group 0 (on_track tid s)"
  shows "data_inv s"
  unfolding data_inv_def list_all_iff
  using assms by (auto split: option.splits)

lemma data_inv_frame:
  assumes inv: "data_inv s"
    and w: "written s' = written s" and p: "moqPublisherState s' = moqPublisherState s"
    and a: "set (awaiting s') \<subseteq> set (awaiting s)"
    and e: "workerState s' = Created \<or> workerState s' = Instantiated \<Longrightarrow>
         workerState s = Created \<or> workerState s = Instantiated"
  shows "data_inv s'"
proof (rule data_invI)
  have t: "on_track tid s' = on_track tid s" for tid using w by (simp add: on_track_def)
  {
    assume "workerState s' = Created \<or> workerState s' = Instantiated"
    from data_invD(4) [OF inv e [OF this]] w a
    show "written s' = [] \<and> awaiting s' = []" by simp
  }
  show "chunkType (p_packet pd) = ''key''"
    if "pd \<in> set (awaiting s')" "mediaType (p_packet pd) = ''data''" for pd
    using that a data_invD(5) [OF inv, of pd] by auto
  show "new_groups 0 (on_track tid s')" for tid
    using data_invD(1) [OF inv] by (simp add: t)
  show "on_track tid s' = []" if "moqPublisherState s' tid = None" for tid
    using that data_invD(2) [OF inv, of tid] by (simp add: t p)
  show "currentGroupSeq st = last_group 0 (on_track tid s')"
    if "moqPublisherState s' tid = Some st" for tid st
    using that data_invD(3) [OF inv, of tid st] by (simp add: t p)
qed

lemma data_inv_nothing_written:
  assumes "written s = []" and "awaiting s = []" and "moqPublisherState s = Map.empty"
  shows "data_inv s"
  using assms by (simp add: data_inv_def on_track_def)

lemma data_inv_init: "data_inv sender_init"
  by (rule data_inv_nothing_written) (simp_all add: sender_init_def)

lemma data_inv_new_state:
  assumes inv: "data_inv s"
    and r: "\<not> (workerState s' = Created \<or> workerState s' = Instantiated)"
    and w: "written s' = written s"
    and p: "moqPublisherState s' =
              (if moqPublisherState s tid = None
               then (moqPublisherState s)(tid \<mapsto> createTrackState) else moqPublisherState s)"
    and a: "awaiting s' = awaiting s @ [pd]"
    and k: "mediaType (p_packet pd) = ''data'' \<longrightarrow> chunkType (p_packet pd) = ''key''"
  shows "data_inv s'"
proof (rule data_invI)
  have t: "on_track i s' = on_track i s" for i using w by (simp add: on_track_def)
  show "written s' = [] \<and> awaiting s' = []"
    if "workerState s' = Created \<or> workerState s' = Instantiated"
    using that r by simp
  show "chunkType (p_packet q) = ''key''"
    if "q \<in> set (awaiting s')" "mediaType (p_packet q) = ''data''" for q
    using that a k data_invD(5) [OF inv, of q] by auto
  show "new_groups 0 (on_track i s')" for i
    using data_invD(1) [OF inv] by (simp add: t)
  show "on_track i s' = []" if "moqPublisherState s' i = None" for i
  proof -
    from that p have "moqPublisherState s i = None" by (auto split: if_splits)
    from data_invD(2) [OF inv this] show ?thesis by (simp add: t)
  qed
  show "currentGroupSeq st = last_group 0 (on_track i s')"
    if "moqPublisherState s' i = Some st" for i st
  proof (cases "moqPublisherState s tid = None \<and> i = tid")
    case True
    with that p have "st = createTrackState" by simp
    moreover from True data_invD(2) [OF inv, of tid] have "on_track i s = []" by simp
    ultimately show ?thesis by (simp add: t createTrackState_def last_group_def)
  next
    case False
    with that p have "moqPublisherState s i = Some st" by (auto split: if_splits)
    from data_invD(3) [OF inv this] show ?thesis by (simp add: t)
  qed
qed

lemma data_inv_onmessage:
  assumes inv: "data_inv s"
  shows "data_inv (onmessage w e s)"
proof (cases "workerState s = Running")
  case True
  have late: "\<not> (workerState (onmessage w e s) = Created \<or>
                 workerState (onmessage w e s) = Instantiated)"
    using onmessage_workerState_back [of w e s] True by auto
  from onmessage_running [OF True, of w e] show ?thesis
  proof (elim disjE exE conjE)
    assume "awaiting (onmessage w e s) = awaiting s"
      "moqPublisherState (onmessage w e s) = moqPublisherState s"
    with late show ?thesis by (intro data_inv_frame [OF inv]) simp_all
  next
    fix t :: track and so :: int and m :: inflight
    assume p: "moqPublisherState (onmessage w e s) =
              (if moqPublisherState s (id_t t) = None
               then (moqPublisherState s)(id_t t \<mapsto> createTrackState)
               else moqPublisherState s)"
      and a: "awaiting (onmessage w e s) = awaiting s @
              [\<lparr>p_packet = createRequest_packet (message_chunkData e),
                p_trackId = id_t t, p_sendOrder = so\<rparr>]"
    have k: "mediaType (p_packet \<lparr>p_packet = createRequest_packet (message_chunkData e),
                p_trackId = id_t t, p_sendOrder = so\<rparr>) = ''data'' \<longrightarrow>
             chunkType (p_packet \<lparr>p_packet = createRequest_packet (message_chunkData e),
                p_trackId = id_t t, p_sendOrder = so\<rparr>) = ''key''"
      by simp
    have w: "written (onmessage w e s) = written s" by simp
    from data_inv_new_state [OF inv late w p a k] show ?thesis .
  qed
next
  case False
  from onmessage_not_running [OF False, of w e] have
    a: "awaiting (onmessage w e s) = awaiting s" and
    p: "moqPublisherState (onmessage w e s) = moqPublisherState s \<or>
         workerState s \<noteq> Stopped \<and> moqPublisherState (onmessage w e s) = Map.empty"
    by simp_all
  from p show ?thesis
  proof
    assume "moqPublisherState (onmessage w e s) = moqPublisherState s"
    with a onmessage_workerState_back [of w e s] show ?thesis
      by (intro data_inv_frame [OF inv]) auto
  next
    assume n: "workerState s \<noteq> Stopped \<and> moqPublisherState (onmessage w e s) = Map.empty"
    with False have "workerState s = Created \<or> workerState s = Instantiated"
      by (cases "workerState s") auto
    with inv have "written s = []" "awaiting s = []" by (simp_all add: data_inv_def)
    with a n show ?thesis by (intro data_inv_nothing_written) simp_all
  qed
qed

lemma on_track_snoc:
  "written s' = written s @ [ob] \<Longrightarrow>
     on_track tid s' = (if o_trackId ob = tid then on_track tid s @ [ob] else on_track tid s)"
  by (simp add: on_track_def)

lemma data_inv_stream_opened:
  assumes inv: "data_inv s"
  shows "data_inv (stream_opened n s)"
proof (cases "n < length (awaiting s)")
  case False
  then show ?thesis using inv by (simp add: stream_opened_out_of_range)
next
  case True
  then have ne: "awaiting s \<noteq> []" by auto
  with data_invD(4) [OF inv]
  have late: "\<not> (workerState s = Created \<or> workerState s = Instantiated)"
    by auto
  define pd where "pd = awaiting s ! n"
  have pdin: "pd \<in> set (awaiting s)" using True by (simp add: pd_def)
  with data_invD(5) [OF inv, of pd]
  have key: "mediaType (p_packet pd) = ''data'' \<longrightarrow> chunkType (p_packet pd) = ''key''"
    by auto
  show ?thesis
  proof (cases "moqPublisherState s (p_trackId pd)")
    case None
    with True have "stream_opened n s =
        send_failed pd ''TypeError'' (s\<lparr>awaiting := remove_nth n (awaiting s)\<rparr>)"
      by (simp add: stream_opened_no_state pd_def)
    with late show ?thesis
      by (intro data_inv_frame [OF inv]) (simp_all add: remove_nth_subset)
  next
    case (Some st)
    let ?s' = "stream_opened n s"
    let ?g = "if chunkType (p_packet pd) \<noteq> ''delta''
              then currentGroupSeq st + 1 else currentGroupSeq st"
    let ?o = "if chunkType (p_packet pd) \<noteq> ''delta'' then 0 else currentObjectSeq st"
    let ?ob = "\<lparr>o_mediaType = mediaType (p_packet pd), o_trackId = p_trackId pd,
             groupSeq = ?g, objSeq = ?o, sendOrder = p_sendOrder pd\<rparr>"
    note so = stream_opened_state [OF True pd_def [symmetric] Some]
    have ws: "workerState ?s' = workerState s" by simp
    have tr: "on_track tid ?s' =
        (if tid = p_trackId pd then on_track tid s @ [?ob] else on_track tid s)" for tid
      using on_track_snoc [OF so(1), of tid] by auto
    show ?thesis
    proof (rule data_invI)
      show "written ?s' = [] \<and> awaiting ?s' = []"
        if "workerState ?s' = Created \<or> workerState ?s' = Instantiated"
        using that late ws by simp
      show "chunkType (p_packet q) = ''key''"
        if "q \<in> set (awaiting ?s')" "mediaType (p_packet q) = ''data''" for q
        using that remove_nth_subset [of n "awaiting s"] data_invD(5) [OF inv, of q]
        by (auto simp: so(3))
      show "on_track tid ?s' = []" if "moqPublisherState ?s' tid = None" for tid
      proof -
        from that have ne: "tid \<noteq> p_trackId pd" and "moqPublisherState s tid = None"
          by (auto simp: so(2) split: if_splits)
        with data_invD(2) [OF inv, of tid] show ?thesis by (simp add: tr)
      qed
      show "new_groups 0 (on_track tid ?s')" for tid
      proof (cases "tid = p_trackId pd")
        case False
        with data_invD(1) [OF inv, of tid] show ?thesis by (simp add: tr)
      next
        case True
        from data_invD(3) [OF inv Some] True
        have cg: "currentGroupSeq st = last_group 0 (on_track tid s)" by simp
        have "new_groups 0 (on_track tid s @ [?ob])"
          using data_invD(1) [OF inv, of tid] cg key by (simp add: new_groups_snoc)
        with True show ?thesis by (simp add: tr)
      qed
      show "currentGroupSeq st' = last_group 0 (on_track tid ?s')"
        if "moqPublisherState ?s' tid = Some st'" for tid st'
      proof (cases "tid = p_trackId pd")
        case False
        with that have "moqPublisherState s tid = Some st'" by (simp add: so(2))
        from data_invD(3) [OF inv this] False show ?thesis by (simp add: tr)
      next
        case True
        with that have "currentGroupSeq st' = ?g" by (auto simp: so(2))
        moreover have "last_group 0 (on_track tid s @ [?ob]) = ?g"
          by (simp add: last_group_def)
        ultimately show ?thesis using True by (simp add: tr)
      qed
    qed
  qed
qed

lemma data_inv_step:
  assumes "data_inv s"
  shows "data_inv (step a s)"
proof (cases a)
  case (Message w e)
  with assms show ?thesis by (simp add: data_inv_onmessage)
next
  case (StreamOpened n)
  with assms show ?thesis by (simp add: data_inv_stream_opened)
next
  case (StreamRejected n m)
  have "data_inv (stream_rejected n m s)"
    by (rule data_inv_frame [OF assms])
       (simp_all add: stream_rejected_awaiting remove_nth_subset)
  with StreamRejected show ?thesis by simp
next
  case (CloseSettled n r)
  have "data_inv (close_settled n r s)"
    by (rule data_inv_frame [OF assms]) simp_all
  with CloseSettled show ?thesis by simp
next
  case (SubscribeRequest sub)
  have "data_inv (subscription_body sub s)"
    by (rule data_inv_frame [OF assms]) simp_all
  with SubscribeRequest show ?thesis by simp
next
  case (InitResumed w)
  have "data_inv (on_muxersendini_resume w s)"
    using on_muxersendini_resume_workerState [of w s]
    by (intro data_inv_frame [OF assms]) auto
  with InitResumed show ?thesis by simp
qed

lemma data_inv_run: "data_inv s \<Longrightarrow> data_inv (run acts s)"
  by (induction acts arbitrary: s) (simp_all add: data_inv_step)

lemma data_session:
  "moqCreatePublisherSession data_tracks MOQ_PARAMETER_ROLE_SUBSCRIBER [''vc''] =
     ([Setup MOQ_PARAMETER_ROLE_PUBLISHER, Announce (Some ''vc'') (Some ''secret'')],
      [Info ''Received SETUP response'', Info ''Received ANNOUNCE response''], Inr ())"
  by (simp add: moqCreatePublisherSession_def data_tracks_def data_track_def role_defs)

lemma check_data_tracks: "checkTrackData data_tracks = []"
  by (simp add: checkTrackData_def data_tracks_def data_track_def)

lemma data_ready_fields:
  "workerState data_ready = Running" "tracks data_ready = data_tracks" "wt data_ready"
  "moqPublisherState data_ready = Map.empty" "awaiting data_ready = []"
  "written data_ready = []" "inFlightRequests data_ready = initInflightReqData data_tracks"
  "isSendingStats data_ready = False" "closing data_ready = []"
  by (simp_all add: data_ready_def onmessage_def on_muxersendini_def
      on_muxersendini_resume_def sender_init_def
      ini_data_msg_def quiet_def Let_def check_data_tracks data_session moqClose_def
      moqResetState_def emit_def)

lemmas data_defs = data_msg_def data_tracks_def data_track_def data_send_def data_object_def
  no_config_def

lemma first_asked: "onmessage quiet (data_msg ''d1'' ''delta'' 0) data_ready = first_asked"
  by (rule sender.equality)
     (simp_all add: first_asked_def data_ready_fields send_defs Let_def data_defs)

lemma first_sent: "stream_opened 0 first_asked = first_sent"
  by (rule sender.equality)
     (simp_all add: first_asked_def first_sent_def data_ready_fields send_defs Let_def data_defs)

lemma second_asked: "onmessage quiet (data_msg ''d2'' ''delta'' 1) first_sent = second_asked"
  by (rule sender.equality)
     (simp_all add: second_asked_def first_sent_def data_ready_fields send_defs Let_def
        data_defs)

lemma second_sent: "stream_opened 0 second_asked = second_sent"
  by (rule sender.equality)
     (simp_all add: second_asked_def second_sent_def first_sent_def data_ready_fields send_defs
        Let_def data_defs numeral_2_eq_2)

lemma data_run: "run data_actions sender_init = second_sent"
  by (simp add: data_actions_def data_ready_def [symmetric] first_asked first_sent second_asked
      second_sent)

text \<open>
  C10 (as the code has it). \<^verbatim>\<open>createRequest\<close> packages a chunk of the \<^verbatim>\<open>data\<close> track
  with chunk type \<^verbatim>\<open>key\<close> whatever the inbound chunk's type, so it never returns the
  first-object drop (nor any other drop) for it. Whatever steps the worker takes from its
  initial state, every data object written has \<open>objSeq = 0\<close> and a \<open>groupSeq\<close> one greater
  than the object written before it on its track id (\<open>1\<close> for the first): \<open>new_groups\<close>.
  That object is the previous data object when only data objects are written on the id:
  the objects written on such an id are \<open>(1, 0), (2, 0), (3, 0), \<dots>\<close>.
\<close>

theorem data_chunks_are_keys:
  "(mediaType_c cd = ''data'' \<longrightarrow>
      chunkType (createRequest_packet cd) = ''key'' \<and> fst (createRequest cd s) \<noteq> DroppedR m) \<and>
   new_groups 0 (on_track tid (run acts sender_init)) \<and>
   (list_all (\<lambda>ob. o_mediaType ob = ''data'') (on_track tid (run acts sender_init)) \<longrightarrow>
      map (\<lambda>ob. (groupSeq ob, objSeq ob)) (on_track tid (run acts sender_init)) =
        map (\<lambda>k. (k, 0)) [1 ..< Suc (length (on_track tid (run acts sender_init)))])"
proof (intro conjI impI)
  assume d: "mediaType_c cd = ''data''"
  then show "chunkType (createRequest_packet cd) = ''key''" by simp
  from d show "fst (createRequest cd s) \<noteq> DroppedR m"
    by (rule createRequest_data_not_dropped)
next
  have inv: "data_inv (run acts sender_init)"
    by (rule data_inv_run [OF data_inv_init])
  from data_invD(1) [OF inv] show ng: "new_groups 0 (on_track tid (run acts sender_init))" .
  assume "list_all (\<lambda>ob. o_mediaType ob = ''data'') (on_track tid (run acts sender_init))"
  from new_groups_all_data [OF ng this]
  show "map (\<lambda>ob. (groupSeq ob, objSeq ob)) (on_track tid (run acts sender_init)) =
        map (\<lambda>k. (k, 0)) [1 ..< Suc (length (on_track tid (run acts sender_init)))]"
    by simp
qed

theorem data_chunks_are_keys_witness:
  "chunkType (createRequest_packet (message_chunkData (data_msg ''d1'' ''delta'' 0))) = ''key'' \<and>
   fst (createRequest (message_chunkData (data_msg ''d1'' ''delta'' 0)) data_ready) \<noteq>
     DroppedR ''Dropped chunk because first object can not be delta, data: '' \<and>
   on_track 2 (run data_actions sender_init) = [data_object 1 0, data_object 2 1] \<and>
   map (\<lambda>ob. (groupSeq ob, objSeq ob)) (on_track 2 (run data_actions sender_init)) =
     [(1, 0), (2, 0)]"
  using data_chunks_are_keys
      [of "message_chunkData (data_msg ''d1'' ''delta'' 0)" data_ready
        "''Dropped chunk because first object can not be delta, data: ''" 2 data_actions]
  by (simp add: data_run second_sent_def first_sent_def on_track_def data_object_def
      data_msg_def)

subsection \<open>A data track that shares its id\<close>

lemma shared_session:
  "moqCreatePublisherSession shared_tracks MOQ_PARAMETER_ROLE_SUBSCRIBER [''vc''] =
     ([Setup MOQ_PARAMETER_ROLE_PUBLISHER, Announce (Some ''vc'') (Some ''secret'')],
      [Info ''Received SETUP response'', Info ''Received ANNOUNCE response''], Inr ())"
  by (simp add: moqCreatePublisherSession_def shared_tracks_def role_defs)

lemma check_shared_tracks: "checkTrackData shared_tracks = []"
  by (simp add: checkTrackData_def shared_tracks_def)

lemma shared_ready_fields:
  "workerState shared_ready = Running"
  "tracks shared_ready =
     [(''data'', \<lparr>id_t = 0, namespace = Some ''vc'', name_t = Some ''data0'',
                 authInfo = Some ''secret'', isHipri = False, maxInFlightRequests = 10,
                 numSubscribers = Some 1\<rparr>),
      (''video'', \<lparr>id_t = 0, namespace = Some ''vc'', name_t = Some ''video0'',
                  authInfo = Some ''secret'', isHipri = False, maxInFlightRequests = 10,
                  numSubscribers = Some 1\<rparr>)]"
  "wt shared_ready"
  "moqPublisherState shared_ready = Map.empty" "awaiting shared_ready = []"
  "written shared_ready = []" "inFlightRequests shared_ready = initInflightReqData shared_tracks"
  "isSendingStats shared_ready = False" "closing shared_ready = []"
  by (simp_all add: shared_ready_def onmessage_def on_muxersendini_def
      on_muxersendini_resume_def sender_init_def subscription_body_def getTrack_def sub_msg_def
      sub_data_def add_subscriber_def
      ini_shared_msg_def quiet_def Let_def check_shared_tracks shared_session moqClose_def
      moqResetState_def emit_def)
     (simp_all add: shared_tracks_def add_subscriber_def)

lemmas shared_defs = video_msg_def data_msg_def shared_tracks_def shared_send_def
  shared_object_def no_config_def

lemma shared_one:
  "stream_opened 0 (onmessage quiet (data_msg ''d1'' ''delta'' 0) shared_ready) = shared_one"
proof -
  have "onmessage quiet (data_msg ''d1'' ''delta'' 0) shared_ready =
      shared_ready\<lparr>moqPublisherState := [0 \<mapsto> createTrackState],
        awaiting := [shared_send ''data'' ''d1'' 0]\<rparr>"
    by (rule sender.equality)
       (simp_all add: shared_ready_fields send_defs Let_def shared_defs)
  moreover have "stream_opened 0 (shared_ready\<lparr>moqPublisherState := [0 \<mapsto> createTrackState],
        awaiting := [shared_send ''data'' ''d1'' 0]\<rparr>) = shared_one"
    by (rule sender.equality)
       (simp_all add: shared_one_def shared_ready_fields send_defs Let_def shared_defs)
  ultimately show ?thesis by simp
qed

lemma shared_two:
  "stream_opened 0 (onmessage quiet (video_msg ''v1'' ''key'' 1) shared_one) = shared_two"
proof -
  have "onmessage quiet (video_msg ''v1'' ''key'' 1) shared_one =
      shared_one\<lparr>awaiting := [shared_send ''video'' ''v1'' 1]\<rparr>"
    by (rule sender.equality)
       (simp_all add: shared_one_def shared_ready_fields send_defs Let_def shared_defs)
  moreover have "stream_opened 0 (shared_one\<lparr>awaiting := [shared_send ''video'' ''v1'' 1]\<rparr>) =
      shared_two"
    by (rule sender.equality)
       (simp_all add: shared_two_def shared_one_def shared_ready_fields send_defs Let_def
          shared_defs numeral_2_eq_2)
  ultimately show ?thesis by simp
qed

lemma shared_three:
  "stream_opened 0 (onmessage quiet (data_msg ''d2'' ''delta'' 2) shared_two) = shared_three"
proof -
  have "onmessage quiet (data_msg ''d2'' ''delta'' 2) shared_two =
      shared_two\<lparr>awaiting := [shared_send ''data'' ''d2'' 2]\<rparr>"
    by (rule sender.equality)
       (simp_all add: shared_two_def shared_one_def shared_ready_fields send_defs Let_def
          shared_defs)
  moreover have "stream_opened 0 (shared_two\<lparr>awaiting := [shared_send ''data'' ''d2'' 2]\<rparr>) =
      shared_three"
    by (rule sender.equality)
       (simp_all add: shared_three_def shared_two_def shared_one_def shared_ready_fields
          send_defs Let_def shared_defs numeral_2_eq_2 numeral_3_eq_3)
  ultimately show ?thesis by simp
qed

lemma shared_run: "run shared_actions sender_init = shared_three"
proof -
  have "run shared_actions sender_init =
      stream_opened 0 (onmessage quiet (data_msg ''d2'' ''delta'' 2)
        (stream_opened 0 (onmessage quiet (video_msg ''v1'' ''key'' 1)
          (stream_opened 0 (onmessage quiet (data_msg ''d1'' ''delta'' 0) shared_ready)))))"
    by (simp add: shared_actions_def shared_ready_def)
  then show ?thesis
    unfolding shared_one shared_two shared_three .
qed

text \<open>
  C10 as stated fails when the data track shares its id with another track. With the
  data track and the video track both configured with id 0 (\<^verbatim>\<open>checkTrackData\<close> does not
  look at ids), a data chunk, a video key chunk and a second data chunk are written as
  groups 1, 2 and 3 of track id 0: the second data object's \<open>groupSeq\<close> is two greater
  than the first data object's.
\<close>

theorem data_chunks_shared_id_counterexample:
  "checkTrackData shared_tracks = [] \<and>
   written (run shared_actions sender_init) =
     [shared_object ''data'' 1 0, shared_object ''video'' 2 1, shared_object ''data'' 3 2] \<and>
   map groupSeq (filter (\<lambda>ob. o_mediaType ob = ''data'') (written (run shared_actions sender_init))) =
     [1, 3]"
  unfolding shared_run
  by (simp add: check_shared_tracks shared_three_def shared_object_def)

section \<open>The in-flight bound\<close>

lemma narrow_session:
  "moqCreatePublisherSession narrow_tracks MOQ_PARAMETER_ROLE_SUBSCRIBER [''vc''] =
     ([Setup MOQ_PARAMETER_ROLE_PUBLISHER, Announce (Some ''vc'') (Some ''secret'')],
      [Info ''Received SETUP response'', Info ''Received ANNOUNCE response''], Inr ())"
  by (simp add: moqCreatePublisherSession_def narrow_tracks_def narrow_track_def role_defs)

lemma check_narrow_tracks: "checkTrackData narrow_tracks = []"
  by (simp add: checkTrackData_def narrow_tracks_def narrow_track_def)

lemma narrow_ready_fields:
  "workerState narrow_ready = Running"
  "tracks narrow_ready = [(''video'', narrow_track\<lparr>numSubscribers := Some 1\<rparr>)]"
  "wt narrow_ready"
  "moqPublisherState narrow_ready = Map.empty" "awaiting narrow_ready = []"
  "written narrow_ready = []" "inFlightRequests narrow_ready = initInflightReqData narrow_tracks"
  "isSendingStats narrow_ready = False" "closing narrow_ready = []"
  "filter is_dropped (toMain narrow_ready) = []"
  by (simp_all add: narrow_ready_def onmessage_def on_muxersendini_def
      on_muxersendini_resume_def sender_init_def subscription_body_def getTrack_def sub_msg_def
      add_subscriber_def
      ini_narrow_msg_def quiet_def Let_def check_narrow_tracks narrow_session moqClose_def
      moqResetState_def emit_def)
     (simp_all add: narrow_tracks_def narrow_track_def add_subscriber_def)

lemmas narrow_defs = video_msg_def narrow_tracks_def narrow_track_def narrow_send_def
  video_object_def no_config_def

lemma one_asked:
  "onmessage quiet (video_msg ''v1'' ''key'' 0) narrow_ready =
     narrow_ready\<lparr>moqPublisherState := [1 \<mapsto> createTrackState],
       awaiting := [narrow_send ''v1'' 0]\<rparr>"
  by (rule sender.equality)
     (simp_all add: narrow_ready_fields send_defs Let_def narrow_defs)

lemma both_asked:
  "onmessage quiet (video_msg ''v2'' ''key'' 1)
     (narrow_ready\<lparr>moqPublisherState := [1 \<mapsto> createTrackState],
        awaiting := [narrow_send ''v1'' 0]\<rparr>) = both_asked"
  by (rule sender.equality)
     (simp_all add: both_asked_def narrow_ready_fields send_defs Let_def narrow_defs)

lemma one_sent:
  "stream_opened 0 both_asked =
     narrow_ready\<lparr>moqPublisherState := [1 \<mapsto> \<lparr>currentGroupSeq = 1, currentObjectSeq = 1\<rparr>],
       written := [video_object 1 0 0],
       inFlightRequests := (initInflightReqData narrow_tracks)(''video'' \<mapsto>
          [(''v1'', Promise ''v1'')]),
       awaiting := [narrow_send ''v2'' 1],
       closing := [narrow_send ''v1'' 0],
       toMain := toMain narrow_ready @ [Debug ''Sending MOQT'']\<rparr>"
  by (rule sender.equality)
     (simp_all add: both_asked_def narrow_ready_fields send_defs Let_def narrow_defs)

lemma both_sent:
  "stream_opened 0
     (narrow_ready\<lparr>moqPublisherState := [1 \<mapsto> \<lparr>currentGroupSeq = 1, currentObjectSeq = 1\<rparr>],
       written := [video_object 1 0 0],
       inFlightRequests := (initInflightReqData narrow_tracks)(''video'' \<mapsto>
          [(''v1'', Promise ''v1'')]),
       awaiting := [narrow_send ''v2'' 1],
       closing := [narrow_send ''v1'' 0],
       toMain := toMain narrow_ready @ [Debug ''Sending MOQT'']\<rparr>) = both_sent"
  by (rule sender.equality)
     (simp_all add: both_sent_def narrow_ready_fields send_defs Let_def narrow_defs
        numeral_2_eq_2)

lemma race_run: "run race_actions sender_init = both_sent"
proof -
  have "run race_actions sender_init =
      stream_opened 0 (stream_opened 0
        (onmessage quiet (video_msg ''v2'' ''key'' 1)
           (onmessage quiet (video_msg ''v1'' ''key'' 0) narrow_ready)))"
    by (simp add: race_actions_def narrow_ready_def)
  then show ?thesis
    unfolding one_asked both_asked one_sent both_sent .
qed

text \<open>
  C1 (the code at the failing input). A video track with \<^verbatim>\<open>maxInFlightRequests = 1\<close>
  and one subscriber; two key chunks arrive, the second before the stream of the first
  is open. Each finds the in-flight object empty when \<^verbatim>\<open>sendChunkToTransport\<close> tests
  its size, so neither is dropped; each is added to it when its stream opens. After the
  two streams have opened and before any close promise settles, both objects are written
  and the in-flight object of the track holds two entries.
\<close>

theorem inflight_bound_exceeded_by_overlapping_sends:
  "map_of (tracks (run race_actions sender_init)) ''video'' =
     Some (narrow_track\<lparr>numSubscribers := Some 1\<rparr>) \<and>
   maxInFlightRequests narrow_track = 1 \<and>
   inFlightRequests (run race_actions sender_init) ''video'' =
     Some [(''v1'', Promise ''v1''), (''v2'', Promise ''v2'')] \<and>
   filter is_dropped (toMain (run race_actions sender_init)) = [] \<and>
   written (run race_actions sender_init) = [video_object 1 0 0, video_object 2 0 1]"
  unfolding race_run
  by (simp add: both_sent_def narrow_ready_fields) (simp add: narrow_track_def)

section \<open>A stop while the init is suspended\<close>

text \<open>
  An init handler that is suspended in its awaits when the \<^verbatim>\<open>stop\<close> message arrives is
  not cancelled by it. When its handshake then succeeds it assigns Running, and the
  worker has left Stopped.
\<close>

lemma stop_during_init_run:
  "workerState (run [Message quiet ini_msg, Message quiet stop_msg] sender_init) = Stopped \<and>
   initialising (run [Message quiet ini_msg, Message quiet stop_msg] sender_init) = 1 \<and>
   workerState (run stop_during_init sender_init) = Running"
proof -
  have a: "onmessage quiet stop_msg (onmessage quiet ini_msg sender_init) =
      sender_init\<lparr>workerState := Stopped, isSendingStats := False, tracks := two_tracks,
        initialising := 1, toMain := [Info ''Aborting streams while exiting. Err: '']\<rparr>"
    unfolding ini_asked
    by (simp add: onmessage_def on_stop_def getAllInflightRequestsArray_def sender_init_def
        stop_msg_def two_tracks_def moqClose_def emit_def Let_def)
  have b: "workerState (on_muxersendini_resume quiet
      (sender_init\<lparr>workerState := Stopped, isSendingStats := False, tracks := two_tracks,
        initialising := 1, toMain := [Info ''Aborting streams while exiting. Err: '']\<rparr>)) = Running"
    by (simp add: on_muxersendini_resume_def sender_init_def quiet_def Let_def
        ok_session moqClose_def emit_def)
  have c: "workerState (run [Message quiet ini_msg, Message quiet stop_msg] sender_init) = Stopped"
    "initialising (run [Message quiet ini_msg, Message quiet stop_msg] sender_init) = 1"
    by (simp_all add: a)
  have "run stop_during_init sender_init =
      on_muxersendini_resume quiet (onmessage quiet stop_msg (onmessage quiet ini_msg sender_init))"
    by (simp add: stop_during_init_def)
  then have d: "workerState (run stop_during_init sender_init) = Running"
    unfolding a by (simp only: b)
  from c d show ?thesis by simp
qed

end
